theory Spec2Isabelle
  imports Main "HOL-Library.Word"
begin

unbundle bit_operations_syntax

text \<open>
  A model of \<open>ezb2\<close>, a typed client for the Backblaze B2 HTTP API: the helpers of
  \<open>util.ts\<close>, the session client \<open>B2\<close> of \<open>b2.ts\<close> and the \<open>authorize\<close> of the
  bucket-scoped facade \<open>B2Bucket\<close> of \<open>b2-bucket.ts\<close>, with the built-ins of JavaScript
  and Node that they call. Strings are sequences of UTF-16 code units, a thrown error or a
  rejected promise is the left summand of the result, and every operation returns, with its
  outcome, the HTTP requests it has issued.
\<close>

section \<open>JavaScript strings and errors\<close>

text \<open>
  A JavaScript string is a sequence of 16-bit code units (UTF-16, surrogates not
  necessarily paired). String literals of the source are written \<open>js ''...''\<close>.
  A \<open>Buffer\<close> is a sequence of bytes.
\<close>

type_synonym code_unit = "16 word"
type_synonym jsstring = "code_unit list"
type_synonym byte = "8 word"
type_synonym buffer = "byte list"

definition js :: "string \<Rightarrow> jsstring" where
  "js s = map of_char s"

text \<open>
  Everything the code can throw or reject with: the built-in \<open>TypeError\<close> (property
  access on \<open>undefined\<close>), the built-in \<open>URIError\<close> (\<open>encodeURIComponent\<close> on an
  unpaired surrogate), \<open>new Error(message)\<close>, and a rejection of the HTTP transport.
\<close>

datatype error = TypeError | URIError | Error jsstring | AxiosError jsstring

section \<open>The built-in \<open>encodeURIComponent\<close> (ECMA-262, abstract operation Encode)\<close>

definition uriUnreserved :: "nat \<Rightarrow> bool" where
  "uriUnreserved n \<longleftrightarrow>
     (0x41 \<le> n \<and> n \<le> 0x5A) \<or> (0x61 \<le> n \<and> n \<le> 0x7A) \<or> (0x30 \<le> n \<and> n \<le> 0x39) \<or>
     n = 0x2D \<or> n = 0x5F \<or> n = 0x2E \<or> n = 0x21 \<or> n = 0x7E \<or>
     n = 0x2A \<or> n = 0x27 \<or> n = 0x28 \<or> n = 0x29"

definition is_lead :: "code_unit \<Rightarrow> bool" where
  "is_lead c \<longleftrightarrow> 0xD800 \<le> unat c \<and> unat c \<le> 0xDBFF"

definition is_trail :: "code_unit \<Rightarrow> bool" where
  "is_trail c \<longleftrightarrow> 0xDC00 \<le> unat c \<and> unat c \<le> 0xDFFF"

definition pair_code_point :: "code_unit \<Rightarrow> code_unit \<Rightarrow> nat" where
  "pair_code_point c d = (unat c - 0xD800) * 0x400 + (unat d - 0xDC00) + 0x10000"

definition utf8 :: "nat \<Rightarrow> nat list" where
  "utf8 v =
     (if v < 0x80 then [v]
      else if v < 0x800 then [0xC0 + v div 64, 0x80 + v mod 64]
      else if v < 0x10000 then [0xE0 + v div 4096, 0x80 + v div 64 mod 64, 0x80 + v mod 64]
      else [0xF0 + v div 262144, 0x80 + v div 4096 mod 64, 0x80 + v div 64 mod 64,
            0x80 + v mod 64])"

definition hexdigit :: "nat \<Rightarrow> code_unit" where
  "hexdigit d = (if d < 10 then of_nat (0x30 + d) else of_nat (0x37 + d))"

definition percent :: code_unit where
  "percent = 0x25"

definition escape :: "nat \<Rightarrow> jsstring" where
  "escape b = [percent, hexdigit (b div 16), hexdigit (b mod 16)]"

definition escape_all :: "nat list \<Rightarrow> jsstring" where
  "escape_all bs = concat (map escape bs)"

definition prepend :: "'a list \<Rightarrow> error + 'a list \<Rightarrow> error + 'a list" where
  "prepend xs r = (case r of Inl e \<Rightarrow> Inl e | Inr ys \<Rightarrow> Inr (xs @ ys))"

fun encodeURIComponent :: "jsstring \<Rightarrow> error + jsstring" where
  "encodeURIComponent [] = Inr []"
| "encodeURIComponent (c # cs) =
     (if uriUnreserved (unat c) then prepend [c] (encodeURIComponent cs)
      else if is_trail c then Inl URIError
      else if is_lead c then
        (case cs of
           [] \<Rightarrow> Inl URIError
         | d # ds \<Rightarrow>
             if is_trail d
             then prepend (escape_all (utf8 (pair_code_point c d))) (encodeURIComponent ds)
             else Inl URIError)
      else prepend (escape_all (utf8 (unat c))) (encodeURIComponent cs))"

text \<open>
  A string is well formed when every surrogate code unit is part of a pair
  (ECMA-262, IsStringWellFormedUnicode).
\<close>

fun well_formed :: "jsstring \<Rightarrow> bool" where
  "well_formed [] = True"
| "well_formed (c # cs) =
     (if is_trail c then False
      else if is_lead c then
        (case cs of [] \<Rightarrow> False | d # ds \<Rightarrow> is_trail d \<and> well_formed ds)
      else well_formed cs)"

section \<open>The built-in \<open>decodeURIComponent\<close> (ECMA-262, abstract operation Decode)\<close>

definition hexval :: "code_unit \<Rightarrow> nat option" where
  "hexval c =
     (let n = unat c in
      if 0x30 \<le> n \<and> n \<le> 0x39 then Some (n - 0x30)
      else if 0x41 \<le> n \<and> n \<le> 0x46 then Some (n - 0x37)
      else if 0x61 \<le> n \<and> n \<le> 0x66 then Some (n - 0x57)
      else None)"

definition parseHexOctet :: "code_unit \<Rightarrow> code_unit \<Rightarrow> nat option" where
  "parseHexOctet h l =
     (case hexval h of
        None \<Rightarrow> None
      | Some a \<Rightarrow> (case hexval l of None \<Rightarrow> None | Some b \<Rightarrow> Some (16 * a + b)))"

text \<open>The number of leading 1 bits of an octet.\<close>

definition leading_ones :: "nat \<Rightarrow> nat" where
  "leading_ones b =
     (if b < 0x80 then 0 else if b < 0xC0 then 1 else if b < 0xE0 then 2
      else if b < 0xF0 then 3 else if b < 0xF8 then 4 else if b < 0xFC then 5
      else if b < 0xFE then 6 else if b < 0xFF then 7 else 8)"

text \<open>A string that consists of escapes \<open>%XX\<close> only, read as its octets.\<close>

fun parse_escapes :: "jsstring \<Rightarrow> nat list option" where
  "parse_escapes [] = Some []"
| "parse_escapes (p # h # l # s) =
     (if p = percent then
        (case parseHexOctet h l of
           None \<Rightarrow> None
         | Some b \<Rightarrow> (case parse_escapes s of None \<Rightarrow> None | Some bs \<Rightarrow> Some (b # bs)))
      else None)"
| "parse_escapes _ = None"

definition continuation :: "nat \<Rightarrow> bool" where
  "continuation b \<longleftrightarrow> 0x80 \<le> b \<and> b \<le> 0xBF"

text \<open>
  The code point of a multi-octet sequence, when the sequence is a valid UTF-8 encoding:
  continuation octets in range, shortest form, no surrogate, at most \<open>0x10FFFF\<close>.
\<close>

fun utf8_decode :: "nat list \<Rightarrow> nat option" where
  "utf8_decode [b0, b1] =
     (let v = (b0 - 0xC0) * 64 + (b1 - 0x80)
      in if 0xC0 \<le> b0 \<and> b0 < 0xE0 \<and> continuation b1 \<and> 0x80 \<le> v then Some v else None)"
| "utf8_decode [b0, b1, b2] =
     (let v = (b0 - 0xE0) * 4096 + (b1 - 0x80) * 64 + (b2 - 0x80)
      in if 0xE0 \<le> b0 \<and> b0 < 0xF0 \<and> continuation b1 \<and> continuation b2 \<and>
            0x800 \<le> v \<and> \<not> (0xD800 \<le> v \<and> v \<le> 0xDFFF)
         then Some v else None)"
| "utf8_decode [b0, b1, b2, b3] =
     (let v = (b0 - 0xF0) * 262144 + (b1 - 0x80) * 4096 + (b2 - 0x80) * 64 + (b3 - 0x80)
      in if 0xF0 \<le> b0 \<and> b0 < 0xF8 \<and> continuation b1 \<and> continuation b2 \<and> continuation b3 \<and>
            0x10000 \<le> v \<and> v \<le> 0x10FFFF
         then Some v else None)"
| "utf8_decode _ = None"

definition utf16 :: "nat \<Rightarrow> jsstring" where
  "utf16 v =
     (if v < 0x10000 then [of_nat v]
      else [of_nat (0xD800 + (v - 0x10000) div 0x400), of_nat (0xDC00 + (v - 0x10000) mod 0x400)])"

fun decodeURIComponent :: "jsstring \<Rightarrow> error + jsstring" where
  "decodeURIComponent [] = Inr []"
| "decodeURIComponent (c # s) =
     (if c \<noteq> percent then prepend [c] (decodeURIComponent s)
      else
        (case s of
           h # l # r \<Rightarrow>
             (case parseHexOctet h l of
                None \<Rightarrow> Inl URIError
              | Some b \<Rightarrow>
                  if leading_ones b = 0 then prepend [of_nat b] (decodeURIComponent r)
                  else if leading_ones b = 1 \<or> 4 < leading_ones b then Inl URIError
                  else if length r < 3 * (leading_ones b - 1) then Inl URIError
                  else
                    (case parse_escapes (take (3 * (leading_ones b - 1)) r) of
                       None \<Rightarrow> Inl URIError
                     | Some bs \<Rightarrow>
                         (case utf8_decode (b # bs) of
                            None \<Rightarrow> Inl URIError
                          | Some v \<Rightarrow>
                              prepend (utf16 v)
                                (decodeURIComponent (drop (3 * (leading_ones b - 1)) r)))))
         | _ \<Rightarrow> Inl URIError))"

section \<open>\<open>util.ts\<close>\<close>

text \<open>\<open>String.prototype.split\<close> with a one-unit separator and \<open>Array.prototype.join\<close>.\<close>

fun js_split :: "'a \<Rightarrow> 'a list \<Rightarrow> 'a list list" where
  "js_split sep [] = [[]]"
| "js_split sep (c # cs) =
     (if c = sep then [] # js_split sep cs
      else (case js_split sep cs of [] \<Rightarrow> [[c]] | s # ss \<Rightarrow> (c # s) # ss))"

fun js_join :: "'a \<Rightarrow> 'a list list \<Rightarrow> 'a list" where
  "js_join sep [] = []"
| "js_join sep [s] = s"
| "js_join sep (s # t # ss) = s @ sep # js_join sep (t # ss)"

text \<open>\<open>Array.prototype.map\<close> with a callback that may throw: the first throw ends the call.\<close>

fun js_map :: "('a \<Rightarrow> error + 'b) \<Rightarrow> 'a list \<Rightarrow> error + 'b list" where
  "js_map f [] = Inr []"
| "js_map f (x # xs) =
     (case f x of
        Inl e \<Rightarrow> Inl e
      | Inr y \<Rightarrow> (case js_map f xs of Inl e \<Rightarrow> Inl e | Inr ys \<Rightarrow> Inr (y # ys)))"

definition slash :: code_unit where
  "slash = 0x2F"

definition getUrlEncodedFilename :: "jsstring \<Rightarrow> error + jsstring" where
  "getUrlEncodedFilename filename =
     (case js_map encodeURIComponent (js_split slash filename) of
        Inl e \<Rightarrow> Inl e
      | Inr segments \<Rightarrow> Inr (js_join slash segments))"

text \<open>
  The inverse pipeline, which is not part of the source: split on \<open>/\<close>, percent-decode
  each segment with \<open>decodeURIComponent\<close>, rejoin with \<open>/\<close>.
\<close>

definition percent_decode_path :: "jsstring \<Rightarrow> error + jsstring" where
  "percent_decode_path encoded =
     (case js_map decodeURIComponent (js_split slash encoded) of
        Inl e \<Rightarrow> Inl e
      | Inr segments \<Rightarrow> Inr (js_join slash segments))"

section \<open>Node built-ins: \<open>crypto.createHash("sha1")\<close> and \<open>Buffer\<close>\<close>

text \<open>
  SHA-1 (FIPS 180-4) on 32-bit words: padding to 512-bit blocks, the 80-word message
  schedule, 80 rounds per block, and the digest written as 40 lower-case hex digits, which
  is what \<open>hash.digest("hex")\<close> returns.
\<close>

definition rotl :: "nat \<Rightarrow> 32 word \<Rightarrow> 32 word" where
  "rotl n w = of_nat (unat w * 2 ^ n mod 2 ^ 32 + unat w div 2 ^ (32 - n))"

definition be64 :: "nat \<Rightarrow> buffer" where
  "be64 n = map (\<lambda>i. of_nat (n div 2 ^ (8 * i) mod 256)) [7, 6, 5, 4, 3, 2, 1, 0]"

definition sha1_pad :: "buffer \<Rightarrow> buffer" where
  "sha1_pad m = m @ [0x80] @ replicate ((119 - length m mod 64) mod 64) 0 @ be64 (8 * length m)"

definition be32 :: "byte \<Rightarrow> byte \<Rightarrow> byte \<Rightarrow> byte \<Rightarrow> 32 word" where
  "be32 a b c d = push_bit 24 (ucast a) OR push_bit 16 (ucast b) OR push_bit 8 (ucast c) OR ucast d"

fun words_of :: "buffer \<Rightarrow> 32 word list" where
  "words_of (a # b # c # d # r) = be32 a b c d # words_of r"
| "words_of _ = []"

fun blocks_of :: "32 word list \<Rightarrow> 32 word list list" where
  "blocks_of [] = []"
| "blocks_of (w # ws) = take 16 (w # ws) # blocks_of (drop 15 ws)"

definition schedule :: "32 word list \<Rightarrow> 32 word list" where
  "schedule block =
     fold (\<lambda>t w. w @ [rotl 1 (w ! (t - 3) XOR w ! (t - 8) XOR w ! (t - 14) XOR w ! (t - 16))])
       [16..<80] block"

definition sha1_f :: "nat \<Rightarrow> 32 word \<Rightarrow> 32 word \<Rightarrow> 32 word \<Rightarrow> 32 word" where
  "sha1_f t b c d =
     (if t < 20 then (b AND c) OR (NOT b AND d)
      else if t < 40 then b XOR c XOR d
      else if t < 60 then (b AND c) OR (b AND d) OR (c AND d)
      else b XOR c XOR d)"

definition sha1_k :: "nat \<Rightarrow> 32 word" where
  "sha1_k t =
     (if t < 20 then 0x5A827999 else if t < 40 then 0x6ED9EBA1
      else if t < 60 then 0x8F1BBCDC else 0xCA62C1D6)"

type_synonym sha1_state = "32 word \<times> 32 word \<times> 32 word \<times> 32 word \<times> 32 word"

fun sha1_rounds :: "nat \<Rightarrow> 32 word list \<Rightarrow> sha1_state \<Rightarrow> sha1_state" where
  "sha1_rounds t [] s = s"
| "sha1_rounds t (w # ws) (a, b, c, d, e) =
     sha1_rounds (t + 1) ws (rotl 5 a + sha1_f t b c d + e + sha1_k t + w, a, rotl 30 b, c, d)"

fun sha1_block :: "32 word list \<Rightarrow> sha1_state \<Rightarrow> sha1_state" where
  "sha1_block block (h0, h1, h2, h3, h4) =
     (case sha1_rounds 0 (schedule block) (h0, h1, h2, h3, h4) of
        (a, b, c, d, e) \<Rightarrow> (h0 + a, h1 + b, h2 + c, h3 + d, h4 + e))"

definition sha1_digest :: "buffer \<Rightarrow> sha1_state" where
  "sha1_digest m =
     fold sha1_block (blocks_of (words_of (sha1_pad m)))
       (0x67452301, 0xEFCDAB89, 0x98BADCFE, 0x10325476, 0xC3D2E1F0)"

definition hex_lower :: "nat \<Rightarrow> code_unit" where
  "hex_lower d = (if d < 10 then of_nat (0x30 + d) else of_nat (0x57 + d))"

definition hex32 :: "32 word \<Rightarrow> jsstring" where
  "hex32 w = map (\<lambda>i. hex_lower (unat w div 16 ^ i mod 16)) [7, 6, 5, 4, 3, 2, 1, 0]"

text \<open>
  \<open>util.ts\<close>, \<open>sha1(data)\<close>: \<open>createHash("sha1")\<close>, \<open>hash.update(data)\<close>,
  \<open>hash.digest("hex")\<close>.
\<close>

definition sha1 :: "buffer \<Rightarrow> jsstring" where
  "sha1 data =
     (case sha1_digest data of
        (h0, h1, h2, h3, h4) \<Rightarrow> hex32 h0 @ hex32 h1 @ hex32 h2 @ hex32 h3 @ hex32 h4)"

text \<open>
  \<open>new Buffer(s)\<close> is the UTF-8 encoding of the string, an unpaired surrogate being
  replaced by U+FFFD; \<open>buffer.toString("base64")\<close> is the padded base64 text.
\<close>

definition octets :: "nat list \<Rightarrow> buffer" where
  "octets bs = map of_nat bs"

fun Buffer_from_string :: "jsstring \<Rightarrow> buffer" where
  "Buffer_from_string [] = []"
| "Buffer_from_string (c # cs) =
     (if is_lead c then
        (case cs of
           [] \<Rightarrow> octets (utf8 0xFFFD)
         | d # ds \<Rightarrow>
             if is_trail d then octets (utf8 (pair_code_point c d)) @ Buffer_from_string ds
             else octets (utf8 0xFFFD) @ Buffer_from_string cs)
      else if is_trail c then octets (utf8 0xFFFD) @ Buffer_from_string cs
      else octets (utf8 (unat c)) @ Buffer_from_string cs)"

definition base64_digit :: "nat \<Rightarrow> code_unit" where
  "base64_digit n =
     (if n < 26 then of_nat (0x41 + n)
      else if n < 52 then of_nat (0x61 + (n - 26))
      else if n < 62 then of_nat (0x30 + (n - 52))
      else if n = 62 then 0x2B else 0x2F)"

definition base64_pad :: code_unit where
  "base64_pad = 0x3D"

fun base64 :: "buffer \<Rightarrow> jsstring" where
  "base64 [] = []"
| "base64 [a] =
     [base64_digit (unat a div 4), base64_digit (unat a mod 4 * 16), base64_pad, base64_pad]"
| "base64 [a, b] =
     [base64_digit (unat a div 4), base64_digit (unat a mod 4 * 16 + unat b div 16),
      base64_digit (unat b mod 16 * 4), base64_pad]"
| "base64 (a # b # c # r) =
     [base64_digit (unat a div 4), base64_digit (unat a mod 4 * 16 + unat b div 16),
      base64_digit (unat b mod 16 * 4 + unat c div 64), base64_digit (unat c mod 64)]
     @ base64 r"

definition byteLength :: "buffer \<Rightarrow> int" where
  "byteLength data = int (length data)"

definition buffer_length :: "buffer \<Rightarrow> int" where
  "buffer_length data = int (length data)"

section \<open>JavaScript values and the operator \<open>||\<close>\<close>

text \<open>
  Values that the code puts into request bodies. Numbers that the code handles are
  forwarded or compared with zero, never computed with, and are modelled by integers.
  An optional parameter \<open>x?: string\<close> is a \<open>jsstring option\<close>, \<open>None\<close> for
  \<open>undefined\<close>.
\<close>

datatype jsval =
    JUndefined
  | JNull
  | JNum int
  | JStr jsstring
  | JBuffer buffer
  | JArr "jsval list"
  | JObj "(string \<times> jsval) list"

text \<open>A property that may be \<open>undefined\<close>, \<open>null\<close> or a value.\<close>

datatype 'a nullable = Undefined | Null | Defined 'a

text \<open>\<open>a || b\<close>: \<open>b\<close> when \<open>a\<close> is falsy (\<open>undefined\<close>, the empty string, the number 0).\<close>

definition or_string :: "jsstring option \<Rightarrow> jsstring \<Rightarrow> jsstring" where
  "or_string a b = (case a of None \<Rightarrow> b | Some s \<Rightarrow> if s = [] then b else s)"

definition or_number :: "int \<Rightarrow> int \<Rightarrow> int" where
  "or_number a b = (if a = 0 then b else a)"

text \<open>\<open>!x\<close> for a property that holds a string when it is defined.\<close>

definition falsy :: "jsstring nullable \<Rightarrow> bool" where
  "falsy x = (case x of Undefined \<Rightarrow> True | Null \<Rightarrow> True | Defined s \<Rightarrow> s = [])"

text \<open>The text of a value inside a template literal.\<close>

definition template_text :: "jsstring nullable \<Rightarrow> jsstring" where
  "template_text x =
     (case x of Undefined \<Rightarrow> js ''undefined'' | Null \<Rightarrow> js ''null'' | Defined s \<Rightarrow> s)"

definition template_text_opt :: "jsstring option \<Rightarrow> jsstring" where
  "template_text_opt x = (case x of None \<Rightarrow> js ''undefined'' | Some s \<Rightarrow> s)"

definition property_value :: "jsstring option \<Rightarrow> jsval" where
  "property_value x = (case x of None \<Rightarrow> JUndefined | Some s \<Rightarrow> JStr s)"

text \<open>Reading the property \<open>name\<close> of a value: \<open>undefined\<close> when there is none.\<close>

definition property :: "string \<Rightarrow> jsval \<Rightarrow> jsval" where
  "property name v =
     (case v of
        JObj fields \<Rightarrow> (case map_of fields name of None \<Rightarrow> JUndefined | Some x \<Rightarrow> x)
      | _ \<Rightarrow> JUndefined)"

section \<open>The HTTP transport (axios)\<close>

text \<open>
  An axios instance is its defaults: \<open>axios.create({baseURL, headers})\<close> makes an
  instance with the given base URL and default headers; the module-level \<open>axios\<close> has
  neither. A call \<open>instance.post(url, data, config)\<close> or \<open>instance.get(url, config)\<close>
  issues one request, recorded with the instance it went through.
\<close>

datatype header_value = HStr jsstring | HNum int

type_synonym header_list = "(string \<times> header_value) list"

record axios_instance =
  baseURL :: "jsstring option"
  default_headers :: header_list

definition axios_global :: axios_instance where
  "axios_global = \<lparr>baseURL = None, default_headers = []\<rparr>"

definition axios_create :: "jsstring \<Rightarrow> header_list \<Rightarrow> axios_instance" where
  "axios_create base hs = \<lparr>baseURL = Some base, default_headers = hs\<rparr>"

typedecl progress_handler

datatype response_type = Arraybuffer | Blob | Document | Json | Text | Stream

record request_config =
  headers :: header_list
  maxRedirects :: "int option"
  responseType :: "response_type option"
  onUploadProgress :: "progress_handler option"
  onDownloadProgress :: "progress_handler option"

definition no_config :: request_config where
  "no_config =
     \<lparr>headers = [], maxRedirects = None, responseType = None, onUploadProgress = None,
      onDownloadProgress = None\<rparr>"

datatype http_method = GET | POST

record request =
  via :: axios_instance
  http_method :: http_method
  url :: jsstring
  body :: "jsval option"
  config :: request_config

text \<open>
  The remote side: what the promise of a request settles to, \<open>Inr\<close> the \<open>data\<close> of the
  response, \<open>Inl\<close> the rejection (network failure or a status outside 2xx). The result
  of an operation is its outcome together with the requests it issued, in order.
\<close>

type_synonym 'r transport = "request \<Rightarrow> error + 'r"

type_synonym 'r outcome = "(error + 'r) \<times> request list"

definition send :: "'r transport \<Rightarrow> request \<Rightarrow> 'r outcome" where
  "send net rq = (net rq, [rq])"

text \<open>A remote side that cannot be reached: every request is rejected.\<close>

definition offline :: "'r transport" where
  "offline rq = Inl (AxiosError (js ''Network Error''))"

text \<open>A remote side that answers every request with the same response data.\<close>

definition answering :: "'r \<Rightarrow> 'r transport" where
  "answering response_data rq = Inr response_data"

text \<open>
  The header that axios puts on the wire: the headers of the call take precedence over the
  defaults of the instance.
\<close>

definition effective_header :: "request \<Rightarrow> string \<Rightarrow> header_value option" where
  "effective_header rq name =
     (case map_of (headers (config rq)) name of
        Some v \<Rightarrow> Some v
      | None \<Rightarrow> map_of (default_headers (via rq)) name)"

section \<open>\<open>b2.ts\<close>: class \<open>B2\<close>\<close>

definition API_VERSION_URL :: jsstring where
  "API_VERSION_URL = js ''/b2api/v1''"

definition API_AUTHORIZE_URL :: jsstring where
  "API_AUTHORIZE_URL = js ''https://api.backblaze.com'' @ API_VERSION_URL @ js ''/b2_authorize_account''"

text \<open>
  Modelled from the spec: the type \<open>AuthorizationResponse\<close>, declared in
  \<open>response-types.ts\<close>, which is not among the sources. The record has the fields that
  the code reads: the granted API base URL, the session token, the download base URL, and
  the allowed bucket id, which the server may leave absent (\<open>undefined\<close> or \<open>null\<close>).
\<close>

record Allowed =
  allowed_bucketId :: "jsstring nullable"

record AuthorizationResponse =
  apiUrl :: jsstring
  authorizationToken :: jsstring
  downloadUrl :: jsstring
  allowed :: Allowed

text \<open>
  The fields of a \<open>B2\<close> object are declared without initialiser: they are \<open>undefined\<close>
  (\<open>None\<close>) until \<open>authorize\<close> assigns them. The field \<open>this.axios\<close> is
  \<open>this_axios\<close>, and so on.
\<close>

record B2 =
  this_axios :: "axios_instance option"
  this_accountId :: "jsstring option"
  this_downloadUrl :: "jsstring option"

definition new_B2 :: B2 where
  "new_B2 = \<lparr>this_axios = None, this_accountId = None, this_downloadUrl = None\<rparr>"

definition B2_authorize ::
  "AuthorizationResponse transport \<Rightarrow> B2 \<Rightarrow> jsstring \<Rightarrow> jsstring \<Rightarrow>
     (error + AuthorizationResponse) \<times> B2 \<times> request list" where
  "B2_authorize net this accountId applicationKey =
     (let rq =
        \<lparr>via = axios_global, http_method = GET, url = API_AUTHORIZE_URL, body = None,
         config = no_config
           \<lparr>headers :=
              [(''Authorization'',
                HStr (js ''Basic '' @
                  base64 (Buffer_from_string (accountId @ js '':'' @ applicationKey))))]\<rparr>\<rparr>
      in case net rq of
           Inl e \<Rightarrow> (Inl e, this, [rq])
         | Inr res_data \<Rightarrow>
             (Inr res_data,
              this
                \<lparr>this_accountId := Some accountId,
                 this_axios :=
                   Some (axios_create (apiUrl res_data @ API_VERSION_URL)
                     [(''Authorization'', HStr (authorizationToken res_data))]),
                 this_downloadUrl := Some (downloadUrl res_data)\<rparr>,
              [rq]))"

text \<open>
  \<open>this.axios.post(path, data)\<close> and \<open>this.axios.get(path, config)\<close>: reading the
  property \<open>post\<close> or \<open>get\<close> of \<open>undefined\<close> throws a \<open>TypeError\<close> before the
  arguments are evaluated and before anything is sent.
\<close>

definition this_axios_post :: "'r transport \<Rightarrow> B2 \<Rightarrow> jsstring \<Rightarrow> jsval \<Rightarrow> 'r outcome" where
  "this_axios_post net this path data =
     (case this_axios this of
        None \<Rightarrow> (Inl TypeError, [])
      | Some instance \<Rightarrow>
          send net
            \<lparr>via = instance, http_method = POST, url = path, body = Some data,
             config = no_config\<rparr>)"

definition this_axios_get ::
  "'r transport \<Rightarrow> B2 \<Rightarrow> jsstring \<Rightarrow> request_config \<Rightarrow> 'r outcome" where
  "this_axios_get net this path cfg =
     (case this_axios this of
        None \<Rightarrow> (Inl TypeError, [])
      | Some instance \<Rightarrow>
          send net
            \<lparr>via = instance, http_method = GET, url = path, body = None, config = cfg\<rparr>)"

subsection \<open>Buckets\<close>

text \<open>
  Modelled from the spec: the type \<open>BucketType\<close>, declared in \<open>response-types.ts\<close>,
  which is not among the sources. It is an enumeration of the storage classes of the API;
  a bucket type is passed as its string.
\<close>

definition createBucket :: "'r transport \<Rightarrow> B2 \<Rightarrow> jsstring \<Rightarrow> jsstring \<Rightarrow> 'r outcome" where
  "createBucket net this bucketName bucketType =
     this_axios_post net this (js ''/b2_create_bucket'')
       (JObj [(''accountId'', property_value (this_accountId this)),
              (''bucketName'', JStr bucketName),
              (''bucketType'', JStr bucketType)])"

definition deleteBucket :: "'r transport \<Rightarrow> B2 \<Rightarrow> jsstring \<Rightarrow> 'r outcome" where
  "deleteBucket net this bucketId =
     this_axios_post net this (js ''/b2_delete_bucket'')
       (JObj [(''accountId'', property_value (this_accountId this)), (''bucketId'', JStr bucketId)])"

definition listBuckets :: "'r transport \<Rightarrow> B2 \<Rightarrow> 'r outcome" where
  "listBuckets net this =
     this_axios_post net this (js ''/b2_list_buckets'')
       (JObj [(''accountId'', property_value (this_accountId this))])"

definition updateBucket :: "'r transport \<Rightarrow> B2 \<Rightarrow> jsstring \<Rightarrow> jsstring \<Rightarrow> 'r outcome" where
  "updateBucket net this bucketId bucketType =
     this_axios_post net this (js ''/b2_update_bucket'')
       (JObj [(''accountId'', property_value (this_accountId this)),
              (''bucketId'', JStr bucketId),
              (''bucketType'', JStr bucketType)])"

subsection \<open>Uploads\<close>

definition getUploadUrl :: "'r transport \<Rightarrow> B2 \<Rightarrow> jsval \<Rightarrow> 'r outcome" where
  "getUploadUrl net this data = this_axios_post net this (js ''/b2_get_upload_url'') data"

text \<open>
  \<open>uploadFile\<close> reads no field of \<open>this\<close>: it posts through the module-level \<open>axios\<close>.
  The file name is encoded first, and a \<open>URIError\<close> of the encoding ends the call.
\<close>

definition uploadFile ::
  "'r transport \<Rightarrow> B2 \<Rightarrow> jsstring \<Rightarrow> jsstring \<Rightarrow> jsstring \<Rightarrow> buffer \<Rightarrow>
     jsstring option \<Rightarrow> jsstring option \<Rightarrow> progress_handler option \<Rightarrow> 'r outcome" where
  "uploadFile net this uploadUrl uploadAuthToken filename data mime hash progress =
     (case getUrlEncodedFilename filename of
        Inl e \<Rightarrow> (Inl e, [])
      | Inr encodedFilename \<Rightarrow>
          send net
            \<lparr>via = axios_global, http_method = POST, url = uploadUrl,
             body = Some (JBuffer data),
             config =
               \<lparr>headers =
                  [(''Authorization'', HStr uploadAuthToken),
                   (''Content-Type'', HStr (or_string mime (js ''b2/x-auto''))),
                   (''Content-Length'', HNum (or_number (byteLength data) (buffer_length data))),
                   (''X-Bz-File-Name'', HStr encodedFilename),
                   (''X-Bz-Content-Sha1'', HStr (or_string hash (sha1 data)))],
                maxRedirects = Some 0,
                responseType = None,
                onUploadProgress = progress,
                onDownloadProgress = None\<rparr>\<rparr>)"

subsection \<open>Query and manipulate files\<close>

definition listFileNames :: "'r transport \<Rightarrow> B2 \<Rightarrow> jsval \<Rightarrow> 'r outcome" where
  "listFileNames net this data = this_axios_post net this (js ''/b2_list_file_names'') data"

definition listFileVersions :: "'r transport \<Rightarrow> B2 \<Rightarrow> jsval \<Rightarrow> 'r outcome" where
  "listFileVersions net this data = this_axios_post net this (js ''/b2_list_file_versions'') data"

definition hideFile :: "'r transport \<Rightarrow> B2 \<Rightarrow> jsval \<Rightarrow> 'r outcome" where
  "hideFile net this data = this_axios_post net this (js ''/b2_hide_file'') data"

definition getFileInfo :: "'r transport \<Rightarrow> B2 \<Rightarrow> jsval \<Rightarrow> 'r outcome" where
  "getFileInfo net this data = this_axios_post net this (js ''/b2_get_file_info'') data"

definition deleteFileVersion :: "'r transport \<Rightarrow> B2 \<Rightarrow> jsval \<Rightarrow> 'r outcome" where
  "deleteFileVersion net this data = this_axios_post net this (js ''/b2_delete_file_version'') data"

subsection \<open>Downloads\<close>

definition getDownloadAuthorization :: "'r transport \<Rightarrow> B2 \<Rightarrow> jsval \<Rightarrow> 'r outcome" where
  "getDownloadAuthorization net this data =
     this_axios_post net this (js ''/b2_get_download_authorization'') data"

definition downloadFileByName ::
  "'r transport \<Rightarrow> B2 \<Rightarrow> jsstring \<Rightarrow> jsstring \<Rightarrow> response_type option \<Rightarrow>
     progress_handler option \<Rightarrow> 'r outcome" where
  "downloadFileByName net this bucketName fileName rtype progress =
     (case getUrlEncodedFilename fileName of
        Inl e \<Rightarrow> (Inl e, [])
      | Inr encodedFileName \<Rightarrow>
          this_axios_get net this
            (template_text_opt (this_downloadUrl this) @ js ''/file/'' @ bucketName @ js ''/''
               @ encodedFileName)
            (no_config\<lparr>responseType := rtype, onDownloadProgress := progress\<rparr>))"

definition downloadFileById ::
  "'r transport \<Rightarrow> B2 \<Rightarrow> jsstring \<Rightarrow> response_type option \<Rightarrow> progress_handler option \<Rightarrow>
     'r outcome" where
  "downloadFileById net this fileId rtype progress =
     this_axios_get net this
       (template_text_opt (this_downloadUrl this) @ API_VERSION_URL
          @ js ''/b2_download_file_by_id?fileId='' @ fileId)
       (no_config\<lparr>responseType := rtype, onDownloadProgress := progress\<rparr>)"

subsection \<open>Large uploads\<close>

text \<open>The default \<open>contentType = "b2/x-auto"\<close> applies when the property is \<open>undefined\<close>.\<close>

definition startLargeFile ::
  "'r transport \<Rightarrow> B2 \<Rightarrow> jsstring \<Rightarrow> jsstring \<Rightarrow> jsstring option \<Rightarrow> 'r outcome" where
  "startLargeFile net this bucketId fileName contentType =
     this_axios_post net this (js ''/b2_start_large_file'')
       (JObj [(''bucketId'', JStr bucketId),
              (''fileName'', JStr fileName),
              (''contentType'',
               JStr (case contentType of None \<Rightarrow> js ''b2/x-auto'' | Some t \<Rightarrow> t))])"

definition getUploadPartUrl :: "'r transport \<Rightarrow> B2 \<Rightarrow> jsval \<Rightarrow> 'r outcome" where
  "getUploadPartUrl net this data = this_axios_post net this (js ''/b2_get_upload_part_url'') data"

definition uploadPart ::
  "'r transport \<Rightarrow> B2 \<Rightarrow> jsstring \<Rightarrow> jsstring \<Rightarrow> int \<Rightarrow> buffer \<Rightarrow>
     progress_handler option \<Rightarrow> 'r outcome" where
  "uploadPart net this uploadUrl uploadAuthToken partNumber data progress =
     send net
       \<lparr>via = axios_global, http_method = POST, url = uploadUrl, body = Some (JBuffer data),
        config =
          \<lparr>headers =
             [(''Authorization'', HStr uploadAuthToken),
              (''Content-Length'', HNum (or_number (byteLength data) (buffer_length data))),
              (''X-Bz-Part-Number'', HNum partNumber),
              (''X-Bz-Content-Sha1'', HStr (sha1 data))],
           maxRedirects = Some 0,
           responseType = None,
           onUploadProgress = progress,
           onDownloadProgress = None\<rparr>\<rparr>"

definition finishLargeFile :: "'r transport \<Rightarrow> B2 \<Rightarrow> jsval \<Rightarrow> 'r outcome" where
  "finishLargeFile net this data = this_axios_post net this (js ''/b2_finish_large_file'') data"

definition cancelLargeFile :: "'r transport \<Rightarrow> B2 \<Rightarrow> jsval \<Rightarrow> 'r outcome" where
  "cancelLargeFile net this data = this_axios_post net this (js ''/b2_cancel_large_file'') data"

subsection \<open>The operations of \<open>B2\<close> other than \<open>authorize\<close>, as one type\<close>

datatype operation =
    CreateBucket jsstring jsstring
  | DeleteBucket jsstring
  | ListBuckets
  | UpdateBucket jsstring jsstring
  | GetUploadUrl jsval
  | UploadFile jsstring jsstring jsstring buffer "jsstring option" "jsstring option"
      "progress_handler option"
  | ListFileNames jsval
  | ListFileVersions jsval
  | HideFile jsval
  | GetFileInfo jsval
  | DeleteFileVersion jsval
  | GetDownloadAuthorization jsval
  | DownloadFileByName jsstring jsstring "response_type option" "progress_handler option"
  | DownloadFileById jsstring "response_type option" "progress_handler option"
  | StartLargeFile jsstring jsstring "jsstring option"
  | GetUploadPartUrl jsval
  | UploadPart jsstring jsstring int buffer "progress_handler option"
  | FinishLargeFile jsval
  | CancelLargeFile jsval

fun invoke :: "'r transport \<Rightarrow> B2 \<Rightarrow> operation \<Rightarrow> 'r outcome" where
  "invoke net this (CreateBucket n t) = createBucket net this n t"
| "invoke net this (DeleteBucket b) = deleteBucket net this b"
| "invoke net this ListBuckets = listBuckets net this"
| "invoke net this (UpdateBucket b t) = updateBucket net this b t"
| "invoke net this (GetUploadUrl d) = getUploadUrl net this d"
| "invoke net this (UploadFile u a f d m h p) = uploadFile net this u a f d m h p"
| "invoke net this (ListFileNames d) = listFileNames net this d"
| "invoke net this (ListFileVersions d) = listFileVersions net this d"
| "invoke net this (HideFile d) = hideFile net this d"
| "invoke net this (GetFileInfo d) = getFileInfo net this d"
| "invoke net this (DeleteFileVersion d) = deleteFileVersion net this d"
| "invoke net this (GetDownloadAuthorization d) = getDownloadAuthorization net this d"
| "invoke net this (DownloadFileByName b f r p) = downloadFileByName net this b f r p"
| "invoke net this (DownloadFileById f r p) = downloadFileById net this f r p"
| "invoke net this (StartLargeFile b f c) = startLargeFile net this b f c"
| "invoke net this (GetUploadPartUrl d) = getUploadPartUrl net this d"
| "invoke net this (UploadPart u a n d p) = uploadPart net this u a n d p"
| "invoke net this (FinishLargeFile d) = finishLargeFile net this d"
| "invoke net this (CancelLargeFile d) = cancelLargeFile net this d"

text \<open>The two operations that go through the module-level \<open>axios\<close> with an upload ticket.\<close>

fun ticket_upload :: "operation \<Rightarrow> bool" where
  "ticket_upload (UploadFile u a f d m h p) = True"
| "ticket_upload (UploadPart u a n d p) = True"
| "ticket_upload _ = False"

section \<open>\<open>b2-bucket.ts\<close>: class \<open>B2Bucket\<close>\<close>

text \<open>
  The facade holds a reference to its \<open>B2\<close> object; what \<open>B2.authorize\<close> assigns to
  that object is visible through the facade, so the facade's state carries the client's
  state after the call.
\<close>

record B2Bucket =
  this_bucketId :: "jsstring option"
  this_b2 :: "B2 option"

definition B2Bucket_authorize ::
  "AuthorizationResponse transport \<Rightarrow> B2Bucket \<Rightarrow> jsstring \<Rightarrow> jsstring \<Rightarrow> jsstring \<Rightarrow>
     (error + AuthorizationResponse) \<times> B2Bucket \<times> request list" where
  "B2Bucket_authorize net this accountId applicationKey bucketId =
     (case B2_authorize net new_B2 accountId applicationKey of
        (Inl e, client, requests) \<Rightarrow>
          (Inl e, this\<lparr>this_bucketId := Some bucketId, this_b2 := Some client\<rparr>, requests)
      | (Inr resp, client, requests) \<Rightarrow>
          (let allowedBucketId = allowed_bucketId (allowed resp)
           in if falsy allowedBucketId \<or> allowedBucketId \<noteq> Defined bucketId
              then
                (Inl (Error
                   (js ''Allowed bucket does not match provided bucket id! Bucket id returned: ''
                      @ template_text allowedBucketId)),
                 this\<lparr>this_bucketId := Some bucketId, this_b2 := Some client\<rparr>, requests)
              else (Inr resp, this\<lparr>this_bucketId := Some bucketId, this_b2 := Some client\<rparr>, requests)))"

section \<open>Example values\<close>

text \<open>An authorization response, and the client that \<open>authorize\<close> makes from it.\<close>

definition example_response :: AuthorizationResponse where
  "example_response =
     \<lparr>apiUrl = js ''https://api001.backblazeb2.com'',
      authorizationToken = js ''session-token'',
      downloadUrl = js ''https://f001.backblazeb2.com'',
      allowed = \<lparr>allowed_bucketId = Defined (js ''bucket'')\<rparr>\<rparr>"

definition session_client :: B2 where
  "session_client =
     fst (snd (B2_authorize (answering example_response) new_B2 (js ''account'') (js ''key'')))"

section \<open>Percent-encoding can be undone\<close>

lemma unat_of_nat16: "n < 65536 \<Longrightarrow> unat (of_nat n :: 16 word) = n"
  by (simp add: unat_of_nat)

lemma unat_hexdigit: "d < 16 \<Longrightarrow> unat (hexdigit d) = (if d < 10 then 48 + d else 55 + d)"
  using unat_of_nat16 [of "48 + d"] unat_of_nat16 [of "55 + d"]
  by (simp add: hexdigit_def)

lemma hexval_hexdigit: "d < 16 \<Longrightarrow> hexval (hexdigit d) = Some d"
  by (simp add: hexval_def unat_hexdigit Let_def)

lemma parseHexOctet_escape:
  "b < 256 \<Longrightarrow> parseHexOctet (hexdigit (b div 16)) (hexdigit (b mod 16)) = Some b"
  by (simp add: parseHexOctet_def hexval_hexdigit)

lemma length_escape_all: "length (escape_all bs) = 3 * length bs"
  by (induction bs) (simp_all add: escape_all_def escape_def)

lemma parse_escapes_escape_all:
  "\<forall>b\<in>set bs. b < 256 \<Longrightarrow> parse_escapes (escape_all bs) = Some bs"
  by (induction bs) (simp_all add: escape_all_def escape_def parseHexOctet_escape)

lemma escape_all_Cons:
  "escape_all (b # bs) @ r = percent # hexdigit (b div 16) # hexdigit (b mod 16) # (escape_all bs @ r)"
  by (simp add: escape_all_def escape_def)

lemma decode_single:
  assumes "b < 128"
  shows "decodeURIComponent (escape_all [b] @ r) = prepend [of_nat b] (decodeURIComponent r)"
proof -
  have "parseHexOctet (hexdigit (b div 16)) (hexdigit (b mod 16)) = Some b"
    using assms by (simp add: parseHexOctet_escape)
  moreover have "leading_ones b = 0"
    using assms by (simp add: leading_ones_def)
  ultimately show ?thesis
    by (simp add: escape_all_Cons) (simp add: escape_all_def)
qed

lemma decode_multi:
  assumes b: "b < 256" and n: "leading_ones b = Suc (length bs)" "1 \<le> length bs" "length bs \<le> 3"
    and bs: "\<forall>x\<in>set bs. x < 256" and v: "utf8_decode (b # bs) = Some v"
  shows "decodeURIComponent (escape_all (b # bs) @ r) = prepend (utf16 v) (decodeURIComponent r)"
proof -
  have "parseHexOctet (hexdigit (b div 16)) (hexdigit (b mod 16)) = Some b"
    using b by (simp add: parseHexOctet_escape)
  moreover have "take (3 * length bs) (escape_all bs @ r) = escape_all bs"
    by (simp add: length_escape_all)
  moreover have "drop (3 * length bs) (escape_all bs @ r) = r"
    by (simp add: length_escape_all)
  moreover have "parse_escapes (escape_all bs) = Some bs"
    using bs by (rule parse_escapes_escape_all)
  ultimately show ?thesis
    using n v by (auto simp add: escape_all_Cons length_escape_all simp del: utf8_decode.simps)
qed



lemma utf8_decode_2:
  assumes "0x80 \<le> v" "v < 0x800"
  shows "utf8_decode [0xC0 + v div 64, 0x80 + v mod 64] = Some v"
  using assms by (simp add: continuation_def Let_def) arith


lemma split3: "v div 4096 * 4096 + v div 64 mod 64 * 64 + v mod 64 = (v::nat)"
proof -
  define q a b c where "q = v div 64" and "a = q div 64" and "b = q mod 64" and "c = v mod 64"
  have "v = q * 64 + c" "q = a * 64 + b"
    by (simp_all add: q_def a_def b_def c_def)
  then have "a * 4096 + b * 64 + c = v"
    by linarith
  moreover have "a = v div 4096"
    by (simp add: a_def q_def div_mult2_eq)
  ultimately show ?thesis
    by (simp add: b_def q_def c_def)
qed


lemma split4:
  "v div 262144 * 262144 + v div 4096 mod 64 * 4096 + v div 64 mod 64 * 64 + v mod 64 = (v::nat)"
proof -
  define q a b c d where "q = v div 64" and "a = q div 4096" and "b = q div 64 mod 64"
    and "c = q mod 64" and "d = v mod 64"
  have "a * 4096 + b * 64 + c = q"
    unfolding a_def b_def c_def by (rule split3)
  moreover have "v = q * 64 + d"
    by (simp add: q_def d_def)
  ultimately have "a * 262144 + b * 4096 + c * 64 + d = v"
    by linarith
  moreover have "v div 64 div 4096 = v div 262144" "v div 64 div 64 = v div 4096"
    by (simp_all add: div_mult2_eq)
  then have "a = v div 262144" "b = v div 4096 mod 64"
    by (simp_all add: a_def b_def q_def)
  ultimately show ?thesis
    by (simp add: c_def q_def d_def)
qed

lemma mod64_le: "(x::nat) mod 64 \<le> 63"
  using mod_less_divisor [of 64 x] by linarith

lemma utf8_decode_3:
  assumes "0x800 \<le> v" "v < 0x10000" "\<not> (0xD800 \<le> v \<and> v \<le> 0xDFFF)"
  shows "utf8_decode [0xE0 + v div 4096, 0x80 + v div 64 mod 64, 0x80 + v mod 64] = Some v"
proof -
  have "v div 4096 < 16"
    using assms by simp
  then show ?thesis
    using assms split3 [of v] by (simp add: continuation_def Let_def mod64_le)
qed

lemma utf8_decode_4:
  assumes "0x10000 \<le> v" "v < 0x110000"
  shows "utf8_decode [0xF0 + v div 262144, 0x80 + v div 4096 mod 64, 0x80 + v div 64 mod 64,
           0x80 + v mod 64] = Some v"
proof -
  have "v div 262144 < 8"
    using assms by simp
  then show ?thesis
    using assms split4 [of v] by (simp add: continuation_def Let_def mod64_le)
qed

lemma utf8_decode_utf8:
  assumes "0x80 \<le> v" "v < 0x110000" "\<not> (0xD800 \<le> v \<and> v \<le> 0xDFFF)"
  shows "utf8_decode (utf8 v) = Some v"
  using assms utf8_decode_2 [of v] utf8_decode_3 [of v] utf8_decode_4 [of v]
  by (simp add: utf8_def del: utf8_decode.simps)

lemma utf8_shape:
  assumes "0x80 \<le> v" "v < 0x110000"
  shows "\<exists>b bs. utf8 v = b # bs \<and> b < 256 \<and> leading_ones b = Suc (length bs) \<and>
           1 \<le> length bs \<and> length bs \<le> 3 \<and> (\<forall>x\<in>set bs. x < 256)"
proof -
  have m: "0x80 + x mod 64 < 256" for x :: nat
    using mod64_le [of x] by linarith
  consider "v < 0x800" | "0x800 \<le> v" "v < 0x10000" | "0x10000 \<le> v"
    by linarith
  then show ?thesis
  proof cases
    case 1
    then have "v div 64 < 32" by simp
    then show ?thesis
      using 1 assms m by (simp add: utf8_def leading_ones_def)
  next
    case 2
    then have "v div 4096 < 16" by simp
    then show ?thesis
      using 2 assms m by (simp add: utf8_def leading_ones_def)
  next
    case 3
    then have "v div 262144 < 8" using assms by simp
    then show ?thesis
      using 3 assms m by (simp add: utf8_def leading_ones_def)
  qed
qed

lemma decode_escape_utf8:
  assumes "v < 0x110000" "\<not> (0xD800 \<le> v \<and> v \<le> 0xDFFF)"
  shows "decodeURIComponent (escape_all (utf8 v) @ r) = prepend (utf16 v) (decodeURIComponent r)"
proof (cases "v < 0x80")
  case True
  then show ?thesis
    using decode_single [of v r] by (simp add: utf8_def utf16_def)
next
  case False
  then obtain b bs where "utf8 v = b # bs" "b < 256" "leading_ones b = Suc (length bs)"
      "1 \<le> length bs" "length bs \<le> 3" "\<forall>x\<in>set bs. x < 256"
    using utf8_shape [of v] assms by auto
  moreover have "utf8_decode (utf8 v) = Some v"
    using False assms by (simp add: utf8_decode_utf8)
  ultimately show ?thesis
    using decode_multi [of b bs v r] by simp
qed


lemma prepend_Inr [simp]: "prepend xs (Inr ys) = Inr (xs @ ys)"
  by (simp add: prepend_def)

lemma prepend_Inl [simp]: "prepend xs (Inl e) = Inl e"
  by (simp add: prepend_def)

lemma prepend_eq_Inr: "prepend xs r = Inr zs \<longleftrightarrow> (\<exists>ys. r = Inr ys \<and> zs = xs @ ys)"
  by (cases r) auto

lemma unreserved_not_percent: "uriUnreserved (unat c) \<Longrightarrow> c \<noteq> percent"
  by (auto simp: uriUnreserved_def percent_def)

lemma utf16_unit: "utf16 (unat (c :: code_unit)) = [c]"
proof -
  have "unat c < 65536"
    using unsigned_less [of c, where 'a = nat] by simp
  then show ?thesis
    by (simp add: utf16_def)
qed

lemma pair_code_point_range:
  assumes "is_lead c" "is_trail d"
  shows "0x10000 \<le> pair_code_point c d" "pair_code_point c d < 0x110000"
  using assms unfolding is_lead_def is_trail_def pair_code_point_def by linarith+

lemma utf16_pair:
  assumes "is_lead c" "is_trail d"
  shows "utf16 (pair_code_point c d) = [c, d]"
proof -
  define a b where "a = unat c - 0xD800" and "b = unat d - 0xDC00"
  have ab: "unat c = 0xD800 + a" "unat d = 0xDC00 + b" "b < 0x400"
    using assms unfolding a_def b_def is_lead_def is_trail_def by linarith+
  have v: "pair_code_point c d - 0x10000 = a * 0x400 + b"
    by (simp add: pair_code_point_def a_def b_def)
  have "(a * 0x400 + b) div 0x400 = a" "(a * 0x400 + b) mod 0x400 = b"
    using ab(3) by simp_all
  then have "0xD800 + (pair_code_point c d - 0x10000) div 0x400 = unat c"
    "0xDC00 + (pair_code_point c d - 0x10000) mod 0x400 = unat d"
    using ab v by simp_all
  then show ?thesis
    using pair_code_point_range [OF assms] by (simp add: utf16_def)
qed

lemma decode_encode:
  "encodeURIComponent s = Inr e \<Longrightarrow> decodeURIComponent e = Inr s"
proof (induction s arbitrary: e rule: encodeURIComponent.induct)
  case 1
  then show ?case by simp
next
  case (2 c cs)
  show ?case
  proof (cases "uriUnreserved (unat c)")
    case True
    with 2 show ?thesis
      by (auto simp: prepend_eq_Inr unreserved_not_percent)
  next
    case unres: False
    show ?thesis
    proof (cases "is_lead c")
      case True
      with unres 2(4) obtain d ds e' where cs: "cs = d # ds" and d: "is_trail d"
        and e': "encodeURIComponent ds = Inr e'"
        and e: "e = escape_all (utf8 (pair_code_point c d)) @ e'"
        by (auto simp: prepend_eq_Inr split: if_splits list.splits)
      have "\<not> is_trail c"
        using True by (simp add: is_lead_def is_trail_def)
      then have "decodeURIComponent e' = Inr ds"
        using 2(2) unres True cs d e' by simp
      then show ?thesis
        using decode_escape_utf8 [of "pair_code_point c d" e'] pair_code_point_range [OF True d]
          utf16_pair [OF True d] cs e
        by simp
    next
      case False
      with unres 2(4) obtain e' where nt: "\<not> is_trail c"
        and e': "encodeURIComponent cs = Inr e'"
        and e: "e = escape_all (utf8 (unat c)) @ e'"
        by (auto simp: prepend_eq_Inr split: if_splits)
      have "decodeURIComponent e' = Inr cs"
        using 2(3) unres False nt e' by simp
      moreover have "unat c < 0x110000"
        using unsigned_less [of c, where 'a = nat] by simp
      moreover have "\<not> (0xD800 \<le> unat c \<and> unat c \<le> 0xDFFF)"
        using False nt by (auto simp: is_lead_def is_trail_def)
      ultimately show ?thesis
        using decode_escape_utf8 [of "unat c" e'] utf16_unit [of c] e
        by simp
    qed
  qed
qed


lemma js_split_not_Nil: "js_split sep s \<noteq> []"
  by (induction s) (auto split: list.splits)

lemma js_split_no_sep: "seg \<in> set (js_split sep s) \<Longrightarrow> sep \<notin> set seg"
  by (induction s arbitrary: seg) (auto split: list.splits if_splits)

lemma js_join_Cons: "ss \<noteq> [] \<Longrightarrow> js_join sep (s # ss) = s @ sep # js_join sep ss"
  by (cases ss) simp_all

lemma js_join_split: "js_join sep (js_split sep s) = s"
proof (induction s)
  case Nil
  then show ?case by simp
next
  case (Cons c cs)
  show ?case
  proof (cases "c = sep")
    case True
    then show ?thesis
      using Cons by (simp add: js_join_Cons js_split_not_Nil)
  next
    case False
    obtain t ts where t: "js_split sep cs = t # ts"
      using js_split_not_Nil [of sep cs] by (cases "js_split sep cs") auto
    then show ?thesis
      using Cons False by (cases ts) simp_all
  qed
qed

lemma js_split_single: "sep \<notin> set s \<Longrightarrow> js_split sep s = [s]"
  by (induction s) auto

lemma js_split_append: "sep \<notin> set s \<Longrightarrow> js_split sep (s @ sep # t) = s # js_split sep t"
  by (induction s) auto

lemma js_split_join:
  "segs \<noteq> [] \<Longrightarrow> \<forall>s\<in>set segs. sep \<notin> set s \<Longrightarrow> js_split sep (js_join sep segs) = segs"
proof (induction segs)
  case Nil
  then show ?case by simp
next
  case (Cons s segs)
  then show ?case
    by (cases segs) (simp_all add: js_split_single js_split_append)
qed

lemma unat_slash: "unat slash = 47"
  by (simp add: slash_def)

lemma slash_not_in_escape_all: "\<forall>b\<in>set bs. b < 256 \<Longrightarrow> slash \<notin> set (escape_all bs)"
proof (induction bs)
  case Nil
  then show ?case by (simp add: escape_all_def)
next
  case (Cons b bs)
  have h: "d < 16 \<Longrightarrow> hexdigit d \<noteq> slash" for d
    using unat_hexdigit [of d] unat_slash by (auto split: if_splits)
  have "b < 256"
    using Cons.prems by simp
  then have "b div 16 < 16" "b mod 16 < 16"
    by simp_all
  then have "slash \<notin> set (escape b)"
    using h [of "b div 16"] h [of "b mod 16"]
    by (auto simp: escape_def percent_def slash_def)
  moreover have "escape_all (b # bs) = escape b @ escape_all bs"
    by (simp add: escape_all_def)
  ultimately show ?case
    using Cons by simp
qed

lemma utf8_octets: "v < 0x110000 \<Longrightarrow> \<forall>b\<in>set (utf8 v). b < 256"
proof (cases "v < 0x80")
  case True
  then show ?thesis by (simp add: utf8_def)
next
  case False
  assume "v < 0x110000"
  then show ?thesis
    using False utf8_shape [of v] by auto
qed

lemma encode_no_slash: "encodeURIComponent s = Inr e \<Longrightarrow> slash \<notin> set e"
proof (induction s arbitrary: e rule: encodeURIComponent.induct)
  case 1
  then show ?case by simp
next
  case (2 c cs)
  show ?case
  proof (cases "uriUnreserved (unat c)")
    case True
    then have "c \<noteq> slash"
      using unat_slash by (auto simp: uriUnreserved_def)
    with True 2 show ?thesis
      by (auto simp: prepend_eq_Inr)
  next
    case unres: False
    show ?thesis
    proof (cases "is_lead c")
      case True
      with unres 2(4) obtain d ds e' where cs: "cs = d # ds" and d: "is_trail d"
        and e': "encodeURIComponent ds = Inr e'"
        and e: "e = escape_all (utf8 (pair_code_point c d)) @ e'"
        by (auto simp: prepend_eq_Inr split: if_splits list.splits)
      have "\<not> is_trail c"
        using True by (simp add: is_lead_def is_trail_def)
      then have "slash \<notin> set e'"
        using 2(2) unres True cs d e' by simp
      then show ?thesis
        using e slash_not_in_escape_all [OF utf8_octets [OF pair_code_point_range(2) [OF True d]]]
        by simp
    next
      case False
      with unres 2(4) obtain e' where nt: "\<not> is_trail c"
        and e': "encodeURIComponent cs = Inr e'"
        and e: "e = escape_all (utf8 (unat c)) @ e'"
        by (auto simp: prepend_eq_Inr split: if_splits)
      have "slash \<notin> set e'"
        using 2(3) unres False nt e' by simp
      moreover have "unat c < 0x110000"
        using unsigned_less [of c, where 'a = nat] by simp
      ultimately show ?thesis
        using e slash_not_in_escape_all [OF utf8_octets, of "unat c"] by simp
    qed
  qed
qed

lemma js_map_Cons_Inr:
  "js_map f (x # xs) = Inr zs \<longleftrightarrow> (\<exists>y ys. f x = Inr y \<and> js_map f xs = Inr ys \<and> zs = y # ys)"
  by (auto split: sum.splits)

lemma js_map_Inr:
  "js_map f xs = Inr ys \<longleftrightarrow> list_all2 (\<lambda>x y. f x = Inr y) xs ys"
proof (induction xs arbitrary: ys)
  case Nil
  then show ?case by auto
next
  case (Cons x xs)
  show ?case
    unfolding js_map_Cons_Inr list_all2_Cons1 Cons.IH by auto
qed

lemma js_map_inverse:
  assumes "js_map f xs = Inr ys" "\<And>x y. f x = Inr y \<Longrightarrow> g y = Inr x"
  shows "js_map g ys = Inr xs"
proof -
  have "list_all2 (\<lambda>x y. f x = Inr y) xs ys"
    using assms(1) by (simp add: js_map_Inr)
  then have "list_all2 (\<lambda>y x. g y = Inr x) ys xs"
    using assms(2) by (induction rule: list_all2_induct) auto
  then show ?thesis
    by (simp add: js_map_Inr)
qed

lemma js_map_range:
  assumes "js_map f xs = Inr ys" "\<And>x y. f x = Inr y \<Longrightarrow> P y"
  shows "\<forall>y\<in>set ys. P y"
proof -
  have "list_all2 (\<lambda>x y. f x = Inr y) xs ys"
    using assms(1) by (simp add: js_map_Inr)
  then show ?thesis
    using assms(2) by (induction rule: list_all2_induct) auto
qed

lemma js_map_length: "js_map f xs = Inr ys \<Longrightarrow> length ys = length xs"
  by (simp add: js_map_Inr list_all2_lengthD)

lemma decode_getUrlEncodedFilename:
  assumes "getUrlEncodedFilename filename = Inr encoded"
  shows "percent_decode_path encoded = Inr filename"
proof -
  obtain segs where segs: "js_map encodeURIComponent (js_split slash filename) = Inr segs"
    and enc: "encoded = js_join slash segs"
    using assms by (auto simp: getUrlEncodedFilename_def split: sum.splits)
  have "\<forall>s\<in>set segs. slash \<notin> set s"
    using segs encode_no_slash by (rule js_map_range)
  moreover have "segs \<noteq> []"
    using js_map_length [OF segs] js_split_not_Nil [of slash filename] by auto
  ultimately have "js_split slash encoded = segs"
    unfolding enc by (simp add: js_split_join)
  moreover have "js_map decodeURIComponent segs = Inr (js_split slash filename)"
    using segs decode_encode by (rule js_map_inverse)
  ultimately show ?thesis
    by (simp add: percent_decode_path_def js_join_split)
qed


lemma prepend_eq_Inl: "prepend xs r = Inl e \<longleftrightarrow> r = Inl e"
  by (cases r) auto

lemma encode_Inl: "encodeURIComponent s = Inl e \<Longrightarrow> e = URIError"
  by (induction s rule: encodeURIComponent.induct)
    (auto simp: prepend_eq_Inl split: if_splits list.splits)

lemma unreserved_no_surrogate:
  "uriUnreserved (unat c) \<Longrightarrow> \<not> is_lead c \<and> \<not> is_trail c"
  by (auto simp: uriUnreserved_def is_lead_def is_trail_def)

lemma encode_Inr_iff: "(\<exists>e. encodeURIComponent s = Inr e) \<longleftrightarrow> well_formed s"
proof (induction s rule: encodeURIComponent.induct)
  case 1
  then show ?case by simp
next
  case (2 c cs)
  show ?case
  proof (cases "uriUnreserved (unat c)")
    case True
    then show ?thesis
      using 2(1) unreserved_no_surrogate [of c] by (simp add: prepend_eq_Inr)
  next
    case unres: False
    show ?thesis
    proof (cases "is_trail c")
      case True
      then show ?thesis using unres by simp
    next
      case nt: False
      show ?thesis
      proof (cases "is_lead c")
        case True
        show ?thesis
        proof (cases cs)
          case Nil
          then show ?thesis using unres nt True by simp
        next
          case (Cons d ds)
          then show ?thesis
            using unres nt True 2(2) by (simp add: prepend_eq_Inr)
        qed
      next
        case False
        then show ?thesis
          using unres nt 2(3) by (simp add: prepend_eq_Inr)
      qed
    qed
  qed
qed

lemma slash_no_surrogate: "\<not> is_lead slash \<and> \<not> is_trail slash"
  by (simp add: is_lead_def is_trail_def slash_def)

lemma well_formed_split:
  "well_formed s \<longleftrightarrow> (\<forall>seg\<in>set (js_split slash s). well_formed seg)"
proof (induction s rule: well_formed.induct)
  case 1
  then show ?case by simp
next
  case (2 c cs)
  obtain t ts where t: "js_split slash cs = t # ts"
    using js_split_not_Nil [of slash cs] by (cases "js_split slash cs") auto
  show ?case
  proof (cases "c = slash")
    case True
    then show ?thesis
      using 2(2) slash_no_surrogate by simp
  next
    case ns: False
    show ?thesis
    proof (cases "is_trail c")
      case True
      then show ?thesis using ns t by simp
    next
      case nt: False
      show ?thesis
      proof (cases "is_lead c")
        case True
        show ?thesis
        proof (cases cs)
          case Nil
          then show ?thesis using ns nt True by simp
        next
          case (Cons d ds)
          obtain u us where u: "js_split slash ds = u # us"
            using js_split_not_Nil [of slash ds] by (cases "js_split slash ds") auto
          show ?thesis
          proof (cases "is_trail d")
            case dt: True
            then have "d \<noteq> slash"
              using slash_no_surrogate by auto
            then show ?thesis
              using ns nt True Cons u dt 2(1) by simp
          next
            case False
            then show ?thesis
              using ns nt True Cons u by (cases "d = slash") simp_all
          qed
        qed
      next
        case False
        then show ?thesis
          using ns nt t 2(2) by simp
      qed
    qed
  qed
qed

lemma js_map_Inl: "js_map f xs = Inl e \<Longrightarrow> \<exists>x\<in>set xs. f x = Inl e"
  by (induction xs) (auto split: sum.splits)

lemma js_map_total:
  "\<forall>x\<in>set xs. \<exists>y. f x = Inr y \<Longrightarrow> \<exists>ys. js_map f xs = Inr ys"
  by (induction xs) (auto split: sum.splits)

lemma getUrlEncodedFilename_Inr_iff:
  "(\<exists>e. getUrlEncodedFilename s = Inr e) \<longleftrightarrow> well_formed s"
proof
  assume "\<exists>e. getUrlEncodedFilename s = Inr e"
  then obtain segs where "js_map encodeURIComponent (js_split slash s) = Inr segs"
    by (auto simp: getUrlEncodedFilename_def split: sum.splits)
  then have "list_all2 (\<lambda>x y. encodeURIComponent x = Inr y) (js_split slash s) segs"
    by (simp add: js_map_Inr)
  then have "\<forall>seg\<in>set (js_split slash s). \<exists>e. encodeURIComponent seg = Inr e"
    by (induction rule: list_all2_induct) auto
  then show "well_formed s"
    by (simp add: well_formed_split [of s] encode_Inr_iff)
next
  assume "well_formed s"
  then have "\<forall>seg\<in>set (js_split slash s). \<exists>e. encodeURIComponent seg = Inr e"
    by (simp add: well_formed_split [of s] encode_Inr_iff)
  then obtain segs where "js_map encodeURIComponent (js_split slash s) = Inr segs"
    using js_map_total by blast
  then show "\<exists>e. getUrlEncodedFilename s = Inr e"
    by (simp add: getUrlEncodedFilename_def)
qed

lemma getUrlEncodedFilename_Inl: "getUrlEncodedFilename s = Inl e \<Longrightarrow> e = URIError"
  by (auto simp: getUrlEncodedFilename_def split: sum.splits dest!: js_map_Inl encode_Inl)

lemma getUrlEncodedFilename_cases:
  "getUrlEncodedFilename s = Inl URIError \<and> \<not> well_formed s \<or>
   (\<exists>e. getUrlEncodedFilename s = Inr e) \<and> well_formed s"
  using getUrlEncodedFilename_Inr_iff [of s] getUrlEncodedFilename_Inl [of s]
  by (cases "getUrlEncodedFilename s") auto

lemma getUrlEncodedFilename_join:
  assumes "segs \<noteq> []" "\<forall>s\<in>set segs. slash \<notin> set s"
  shows "getUrlEncodedFilename (js_join slash segs) =
    (case js_map encodeURIComponent segs of Inl e \<Rightarrow> Inl e | Inr es \<Rightarrow> Inr (js_join slash es))"
  using assms by (simp add: getUrlEncodedFilename_def js_split_join)

section \<open>Evaluation of the encoding\<close>

lemmas enc_defs = getUrlEncodedFilename_def js_def slash_def uriUnreserved_def is_lead_def is_trail_def utf8_def escape_all_def escape_def hexdigit_def percent_def pair_code_point_def


section \<open>The encoded file name\<close>

lemma split_getUrlEncodedFilename:
  assumes "getUrlEncodedFilename filename = Inr encoded"
  shows "js_map encodeURIComponent (js_split slash filename) = Inr (js_split slash encoded)"
proof -
  obtain segs where segs: "js_map encodeURIComponent (js_split slash filename) = Inr segs"
    and enc: "encoded = js_join slash segs"
    using assms by (auto simp: getUrlEncodedFilename_def split: sum.splits)
  have "\<forall>s\<in>set segs. slash \<notin> set s"
    using segs encode_no_slash by (rule js_map_range)
  moreover have "segs \<noteq> []"
    using js_map_length [OF segs] js_split_not_Nil [of slash filename] by auto
  ultimately have "js_split slash encoded = segs"
    unfolding enc by (simp add: js_split_join)
  then show ?thesis
    using segs by simp
qed

text \<open>
  C4. For every file name in which every surrogate is paired,
  \<open>getUrlEncodedFilename\<close> returns the string obtained by splitting the name on \<open>/\<close>,
  encoding each segment on its own with \<open>encodeURIComponent\<close>, and joining the encoded
  segments with \<open>/\<close>; the segments are those of the name (joined with \<open>/\<close> they give
  the name back, and none contains \<open>/\<close>). For a file name with an unpaired surrogate the
  call throws \<open>URIError\<close>. In particular \<open>"a b/c#d"\<close> becomes \<open>"a%20b/c%23d"\<close>.
\<close>

theorem getUrlEncodedFilename_segmentwise:
  "(well_formed filename \<longrightarrow>
      (\<exists>encoded.
         list_all2 (\<lambda>segment e. encodeURIComponent segment = Inr e)
           (js_split slash filename) encoded \<and>
         getUrlEncodedFilename filename = Inr (js_join slash encoded))) \<and>
   (\<not> well_formed filename \<longrightarrow> getUrlEncodedFilename filename = Inl URIError) \<and>
   js_join slash (js_split slash filename) = filename \<and>
   (\<forall>segment\<in>set (js_split slash filename). slash \<notin> set segment) \<and>
   getUrlEncodedFilename (js ''a b/c#d'') = Inr (js ''a%20b/c%23d'')"
proof (intro conjI impI ballI)
  assume "well_formed filename"
  then obtain e where "getUrlEncodedFilename filename = Inr e"
    using getUrlEncodedFilename_Inr_iff [of filename] by blast
  then obtain segs where "js_map encodeURIComponent (js_split slash filename) = Inr segs"
    and "getUrlEncodedFilename filename = Inr (js_join slash segs)"
    by (auto simp: getUrlEncodedFilename_def split: sum.splits)
  then show "\<exists>encoded.
      list_all2 (\<lambda>segment e. encodeURIComponent segment = Inr e)
        (js_split slash filename) encoded \<and>
      getUrlEncodedFilename filename = Inr (js_join slash encoded)"
    by (auto simp: js_map_Inr)
next
  assume "\<not> well_formed filename"
  then show "getUrlEncodedFilename filename = Inl URIError"
    using getUrlEncodedFilename_cases [of filename] by blast
next
  show "js_join slash (js_split slash filename) = filename"
    by (rule js_join_split)
next
  fix segment
  assume "segment \<in> set (js_split slash filename)"
  then show "slash \<notin> set segment"
    by (rule js_split_no_sep)
next
  show "getUrlEncodedFilename (js ''a b/c#d'') = Inr (js ''a%20b/c%23d'')"
    by (simp add: enc_defs)
qed

text \<open>Both cases of C4 at concrete file names.\<close>

theorem getUrlEncodedFilename_segmentwise_witness:
  "well_formed (js ''a b/c#d'') \<and>
   js_split slash (js ''a b/c#d'') = [js ''a b'', js ''c#d''] \<and>
   encodeURIComponent (js ''a b'') = Inr (js ''a%20b'') \<and>
   encodeURIComponent (js ''c#d'') = Inr (js ''c%23d'') \<and>
   getUrlEncodedFilename (js ''a b/c#d'') = Inr (js ''a%20b/c%23d'') \<and>
   \<not> well_formed [0xD800] \<and>
   getUrlEncodedFilename [0xD800] = Inl URIError"
proof -
  have 1: "\<not> well_formed [0xD800]"
    by (simp add: is_lead_def is_trail_def)
  have 2: "well_formed (js ''a b/c#d'')"
    by (simp add: js_def is_lead_def is_trail_def)
  have 3: "js_split slash (js ''a b/c#d'') = [js ''a b'', js ''c#d'']"
    by (simp add: js_def slash_def)
  have 4: "encodeURIComponent (js ''a b'') = Inr (js ''a%20b'')"
    "encodeURIComponent (js ''c#d'') = Inr (js ''c%23d'')"
    by (simp_all add: enc_defs)
  show ?thesis
    using getUrlEncodedFilename_segmentwise [of "[0xD800]"]
      getUrlEncodedFilename_segmentwise [of "js ''a b/c#d''"] 1 2 3 4
    by blast
qed

text \<open>
  C4 does not extend to every file name: no string is returned for a name whose last
  segment is a lead surrogate without its trail surrogate.
\<close>

theorem getUrlEncodedFilename_lone_surrogate:
  "getUrlEncodedFilename (js ''photos/'' @ [0xD83D]) = Inl URIError"
  by (simp add: enc_defs)

text \<open>
  C10. For every file name in which every surrogate is paired,
  \<open>getUrlEncodedFilename\<close> returns an encoded name from which the original is recovered by
  splitting on \<open>/\<close>, decoding each segment with \<open>decodeURIComponent\<close> and joining with
  \<open>/\<close>; the encoded name has as many segments as the original, so that the encoding adds
  no \<open>/\<close>.
\<close>

theorem getUrlEncodedFilename_lossless:
  assumes "well_formed filename"
  shows "\<exists>encoded. getUrlEncodedFilename filename = Inr encoded \<and>
           percent_decode_path encoded = Inr filename \<and>
           length (js_split slash encoded) = length (js_split slash filename)"
proof -
  obtain encoded where e: "getUrlEncodedFilename filename = Inr encoded"
    using assms getUrlEncodedFilename_Inr_iff [of filename] by blast
  have "percent_decode_path encoded = Inr filename"
    using e by (rule decode_getUrlEncodedFilename)
  moreover have "length (js_split slash encoded) = length (js_split slash filename)"
    using split_getUrlEncodedFilename [OF e] by (rule js_map_length)
  ultimately show ?thesis
    using e by blast
qed

text \<open>C10 at a concrete file name.\<close>

theorem getUrlEncodedFilename_lossless_witness:
  "well_formed (js ''a b/c#d'') \<and>
   getUrlEncodedFilename (js ''a b/c#d'') = Inr (js ''a%20b/c%23d'') \<and>
   percent_decode_path (js ''a%20b/c%23d'') = Inr (js ''a b/c#d'') \<and>
   length (js_split slash (js ''a%20b/c%23d'')) = length (js_split slash (js ''a b/c#d''))"
proof -
  have 1: "well_formed (js ''a b/c#d'')"
    by (simp add: js_def is_lead_def is_trail_def)
  have 2: "getUrlEncodedFilename (js ''a b/c#d'') = Inr (js ''a%20b/c%23d'')"
    by (simp add: enc_defs)
  show ?thesis
    using getUrlEncodedFilename_lossless [OF 1] 1 2 by auto
qed

text \<open>
  C10 does not extend to every file name: there is no encoded result for a name with a
  trail surrogate that follows no lead surrogate.
\<close>

theorem getUrlEncodedFilename_no_result:
  "getUrlEncodedFilename (js ''a/'' @ [0xDC00]) = Inl URIError"
  by (simp add: enc_defs)

section \<open>SHA-1 and base64 on test vectors\<close>

lemma replicate_numeral_unfold: "replicate (numeral k) x = x # replicate (pred_numeral k) x"
  by (simp add: numeral_eq_Suc)

lemma words_of_pad_empty:
  "words_of (sha1_pad []) = [0x80000000, 0, 0, 0, 0, 0, 0, 0, 0, 0, 0, 0, 0, 0, 0, 0]"
  by (simp add: sha1_pad_def be64_def replicate_numeral_unfold be32_def)

lemma sha1_block_empty:
  "sha1_block [0x80000000, 0, 0, 0, 0, 0, 0, 0, 0, 0, 0, 0, 0, 0, 0, 0]
     (0x67452301, 0xEFCDAB89, 0x98BADCFE, 0x10325476, 0xC3D2E1F0)
   = (0xda39a3ee, 0x5e6b4b0d, 0x3255bfef, 0x95601890, 0xafd80709)"
  by (simp add: schedule_def rotl_def sha1_f_def sha1_k_def)

lemma sha1_empty: "sha1 [] = js ''da39a3ee5e6b4b0d3255bfef95601890afd80709''"
  unfolding sha1_def sha1_digest_def words_of_pad_empty
  by (simp add: hex32_def hex_lower_def js_def sha1_block_empty del: sha1_block.simps)

lemma words_of_pad_abc:
  "words_of (sha1_pad [0x61, 0x62, 0x63]) =
     [0x61626380, 0, 0, 0, 0, 0, 0, 0, 0, 0, 0, 0, 0, 0, 0, 0x18]"
  by (simp add: sha1_pad_def be64_def replicate_numeral_unfold be32_def)

lemma sha1_block_abc:
  "sha1_block [0x61626380, 0, 0, 0, 0, 0, 0, 0, 0, 0, 0, 0, 0, 0, 0, 0x18]
     (0x67452301, 0xEFCDAB89, 0x98BADCFE, 0x10325476, 0xC3D2E1F0)
   = (0xa9993e36, 0x4706816a, 0xba3e2571, 0x7850c26c, 0x9cd0d89d)"
  by (simp add: schedule_def rotl_def sha1_f_def sha1_k_def)

lemma sha1_abc: "sha1 [0x61, 0x62, 0x63] = js ''a9993e364706816aba3e25717850c26c9cd0d89d''"
  unfolding sha1_def sha1_digest_def words_of_pad_abc
  by (simp add: hex32_def hex_lower_def js_def sha1_block_abc del: sha1_block.simps)

lemma blocks_of_two_blocks:
  "blocks_of (words_of (sha1_pad
     [0x61, 0x62, 0x63, 0x64, 0x62, 0x63, 0x64, 0x65, 0x63, 0x64, 0x65, 0x66, 0x64, 0x65,
      0x66, 0x67, 0x65, 0x66, 0x67, 0x68, 0x66, 0x67, 0x68, 0x69, 0x67, 0x68, 0x69, 0x6a,
      0x68, 0x69, 0x6a, 0x6b, 0x69, 0x6a, 0x6b, 0x6c, 0x6a, 0x6b, 0x6c, 0x6d, 0x6b, 0x6c,
      0x6d, 0x6e, 0x6c, 0x6d, 0x6e, 0x6f, 0x6d, 0x6e, 0x6f, 0x70, 0x6e, 0x6f, 0x70, 0x71])) =
   [[0x61626364, 0x62636465, 0x63646566, 0x64656667, 0x65666768, 0x66676869, 0x6768696a,
     0x68696a6b, 0x696a6b6c, 0x6a6b6c6d, 0x6b6c6d6e, 0x6c6d6e6f, 0x6d6e6f70, 0x6e6f7071,
     0x80000000, 0],
    [0, 0, 0, 0, 0, 0, 0, 0, 0, 0, 0, 0, 0, 0, 0, 0x1c0]]"
  by (simp add: sha1_pad_def be64_def replicate_numeral_unfold be32_def)

lemma sha1_block_two_blocks_1:
  "sha1_block
     [0x61626364, 0x62636465, 0x63646566, 0x64656667, 0x65666768, 0x66676869, 0x6768696a,
      0x68696a6b, 0x696a6b6c, 0x6a6b6c6d, 0x6b6c6d6e, 0x6c6d6e6f, 0x6d6e6f70, 0x6e6f7071,
      0x80000000, 0]
     (0x67452301, 0xEFCDAB89, 0x98BADCFE, 0x10325476, 0xC3D2E1F0)
   = (0xf4286818, 0xc37b27ae, 0x0408f581, 0x84677148, 0x4a566572)"
  by (simp add: schedule_def rotl_def sha1_f_def sha1_k_def)

lemma sha1_block_two_blocks_2:
  "sha1_block [0, 0, 0, 0, 0, 0, 0, 0, 0, 0, 0, 0, 0, 0, 0, 0x1c0]
     (0xf4286818, 0xc37b27ae, 0x0408f581, 0x84677148, 0x4a566572)
   = (0x84983e44, 0x1c3bd26e, 0xbaae4aa1, 0xf95129e5, 0xe54670f1)"
  by (simp add: schedule_def rotl_def sha1_f_def sha1_k_def)

lemma sha1_two_blocks:
  "sha1
     [0x61, 0x62, 0x63, 0x64, 0x62, 0x63, 0x64, 0x65, 0x63, 0x64, 0x65, 0x66, 0x64, 0x65,
      0x66, 0x67, 0x65, 0x66, 0x67, 0x68, 0x66, 0x67, 0x68, 0x69, 0x67, 0x68, 0x69, 0x6a,
      0x68, 0x69, 0x6a, 0x6b, 0x69, 0x6a, 0x6b, 0x6c, 0x6a, 0x6b, 0x6c, 0x6d, 0x6b, 0x6c,
      0x6d, 0x6e, 0x6c, 0x6d, 0x6e, 0x6f, 0x6d, 0x6e, 0x6f, 0x70, 0x6e, 0x6f, 0x70, 0x71]
   = js ''84983e441c3bd26ebaae4aa1f95129e5e54670f1''"
  unfolding sha1_def sha1_digest_def blocks_of_two_blocks
  by (simp add: hex32_def hex_lower_def js_def sha1_block_two_blocks_1 sha1_block_two_blocks_2
        del: sha1_block.simps)

lemma base64_examples:
  "base64 (Buffer_from_string (js ''a'')) = js ''YQ==''"
  "base64 (Buffer_from_string (js ''ab'')) = js ''YWI=''"
  "base64 (Buffer_from_string (js ''a:b'')) = js ''YTpi''"
  "base64 (Buffer_from_string (js ''key-id:secret'')) = js ''a2V5LWlkOnNlY3JldA==''"
  "base64 (Buffer_from_string [0xE9, 0xD83D, 0xDE00, 0xDC00]) = js ''w6nwn5iA77+9''"
  by (simp_all add: js_def is_lead_def is_trail_def utf8_def octets_def pair_code_point_def
        base64_digit_def base64_pad_def)

lemma length_sha1: "length (sha1 data) = 40"
  by (simp add: sha1_def hex32_def split: prod.splits)

section \<open>The example client\<close>

lemma session_client_eq:
  "session_client =
     \<lparr>this_axios = Some (axios_create (js ''https://api001.backblazeb2.com'' @ API_VERSION_URL)
        [(''Authorization'', HStr (js ''session-token''))]),
      this_accountId = Some (js ''account''),
      this_downloadUrl = Some (js ''https://f001.backblazeb2.com'')\<rparr>"
  by (simp add: session_client_def B2_authorize_def answering_def example_response_def new_B2_def
        Let_def)

section \<open>The requests of \<open>uploadFile\<close> and \<open>uploadPart\<close>\<close>

lemma uploadFile_requests:
  "snd (uploadFile net this uploadUrl uploadAuthToken filename data mime hash progress) =
     (case getUrlEncodedFilename filename of
        Inl e \<Rightarrow> []
      | Inr encodedFilename \<Rightarrow>
          [\<lparr>via = axios_global, http_method = POST, url = uploadUrl,
            body = Some (JBuffer data),
            config =
              \<lparr>headers =
                 [(''Authorization'', HStr uploadAuthToken),
                  (''Content-Type'', HStr (or_string mime (js ''b2/x-auto''))),
                  (''Content-Length'', HNum (or_number (byteLength data) (buffer_length data))),
                  (''X-Bz-File-Name'', HStr encodedFilename),
                  (''X-Bz-Content-Sha1'', HStr (or_string hash (sha1 data)))],
               maxRedirects = Some 0,
               responseType = None,
               onUploadProgress = progress,
               onDownloadProgress = None\<rparr>\<rparr>])"
  by (simp add: uploadFile_def send_def split: sum.splits)

lemma uploadFile_one_request:
  "well_formed filename \<Longrightarrow>
     length (snd (uploadFile net this uploadUrl uploadAuthToken filename data mime hash progress)) = 1"
  using getUrlEncodedFilename_Inr_iff [of filename]
  by (auto simp: uploadFile_requests)

lemma uploadFile_no_request:
  "\<not> well_formed filename \<Longrightarrow>
     uploadFile net this uploadUrl uploadAuthToken filename data mime hash progress
       = (Inl URIError, [])"
  using getUrlEncodedFilename_cases [of filename]
  by (auto simp: uploadFile_def)

text \<open>
  C3. Every request that \<open>uploadFile\<close> issues carries in
  \<open>X-Bz-Content-Sha1\<close> the hash given by the caller when that hash is a non-empty string,
  and the SHA-1 hex digest of the payload when the hash is absent or the empty string.
  Exactly one request is issued when the file name can be encoded.
\<close>

theorem uploadFile_content_sha1:
  "(\<forall>rq\<in>set (snd (uploadFile net this uploadUrl uploadAuthToken filename data mime hash progress)).
      effective_header rq ''X-Bz-Content-Sha1'' =
        Some (HStr (case hash of
                      None \<Rightarrow> sha1 data
                    | Some h \<Rightarrow> if h = [] then sha1 data else h))) \<and>
   (well_formed filename \<longrightarrow>
      length (snd (uploadFile net this uploadUrl uploadAuthToken filename data mime hash progress)) = 1)"
proof (intro conjI impI)
  show "\<forall>rq\<in>set (snd (uploadFile net this uploadUrl uploadAuthToken filename data mime hash progress)).
      effective_header rq ''X-Bz-Content-Sha1'' =
        Some (HStr (case hash of
                      None \<Rightarrow> sha1 data
                    | Some h \<Rightarrow> if h = [] then sha1 data else h))"
    by (auto simp: uploadFile_requests effective_header_def or_string_def
          split: sum.splits option.splits)
next
  assume "well_formed filename"
  then show
    "length (snd (uploadFile net this uploadUrl uploadAuthToken filename data mime hash progress)) = 1"
    by (rule uploadFile_one_request)
qed

lemma getUrlEncodedFilename_a_txt: "getUrlEncodedFilename (js ''a.txt'') = Inr (js ''a.txt'')"
  by (simp add: enc_defs)

lemma a_txt_well_formed: "well_formed (js ''a.txt'')"
  using getUrlEncodedFilename_Inr_iff [of "js ''a.txt''"] getUrlEncodedFilename_a_txt by simp

text \<open>C3 at a concrete upload, with a hash and without one.\<close>

theorem uploadFile_content_sha1_witness:
  "well_formed (js ''a.txt'') \<and>
   map (\<lambda>rq. effective_header rq ''X-Bz-Content-Sha1'')
     (snd (uploadFile (offline :: jsval transport) new_B2 (js ''https://pod.example/upload'')
        (js ''ticket'') (js ''a.txt'') [0x61, 0x62, 0x63] None
        (Some (js ''a9993e364706816aba3e25717850c26c9cd0d89d'')) None))
     = [Some (HStr (js ''a9993e364706816aba3e25717850c26c9cd0d89d''))] \<and>
   map (\<lambda>rq. effective_header rq ''X-Bz-Content-Sha1'')
     (snd (uploadFile (offline :: jsval transport) new_B2 (js ''https://pod.example/upload'')
        (js ''ticket'') (js ''a.txt'') [0x61, 0x62, 0x63] None None None))
     = [Some (HStr (js ''a9993e364706816aba3e25717850c26c9cd0d89d''))]"
proof -
  have wf: "well_formed (js ''a.txt'')"
    using getUrlEncodedFilename_Inr_iff [of "js ''a.txt''"] getUrlEncodedFilename_a_txt by simp
  have ne: "js ''a9993e364706816aba3e25717850c26c9cd0d89d'' \<noteq> []"
    by (simp add: js_def)
  have one: "length rqs = 1 \<Longrightarrow> \<forall>rq\<in>set rqs. f rq = v \<Longrightarrow> map f rqs = [v]" for rqs :: "request list"
    and f :: "request \<Rightarrow> header_value option" and v
    by (cases rqs) auto
  show ?thesis
    using uploadFile_content_sha1 [of "offline :: jsval transport" new_B2
        "js ''https://pod.example/upload''" "js ''ticket''" "js ''a.txt''" "[0x61, 0x62, 0x63]" None
        "Some (js ''a9993e364706816aba3e25717850c26c9cd0d89d'')" None]
      uploadFile_content_sha1 [of "offline :: jsval transport" new_B2
        "js ''https://pod.example/upload''" "js ''ticket''" "js ''a.txt''" "[0x61, 0x62, 0x63]" None
        None None]
      wf ne sha1_abc
    by (auto intro!: one)
qed

text \<open>
  C3 does not extend to the hash \<open>""\<close>: the header is then the digest of the payload, not
  the hash that was supplied.
\<close>

theorem uploadFile_empty_hash_ignored:
  "map (\<lambda>rq. effective_header rq ''X-Bz-Content-Sha1'')
     (snd (uploadFile (offline :: jsval transport) new_B2 (js ''https://pod.example/upload'')
        (js ''ticket'') (js ''a.txt'') [] None (Some []) None))
     = [Some (HStr (js ''da39a3ee5e6b4b0d3255bfef95601890afd80709''))]"
  by (simp add: uploadFile_requests getUrlEncodedFilename_a_txt effective_header_def or_string_def sha1_empty)


lemma uploadPart_requests:
  "snd (uploadPart net this uploadUrl uploadAuthToken partNumber data progress) =
     [\<lparr>via = axios_global, http_method = POST, url = uploadUrl, body = Some (JBuffer data),
       config =
         \<lparr>headers =
            [(''Authorization'', HStr uploadAuthToken),
             (''Content-Length'', HNum (or_number (byteLength data) (buffer_length data))),
             (''X-Bz-Part-Number'', HNum partNumber),
             (''X-Bz-Content-Sha1'', HStr (sha1 data))],
          maxRedirects = Some 0,
          responseType = None,
          onUploadProgress = progress,
          onDownloadProgress = None\<rparr>\<rparr>]"
  by (simp add: uploadPart_def send_def)

text \<open>
  C5. Every \<open>uploadPart\<close> call issues exactly one request, whose \<open>X-Bz-Content-Sha1\<close>
  header is the SHA-1 hex digest of the part payload, a string of length 40 (no parameter
  overrides it), and whose \<open>X-Bz-Part-Number\<close> header is the part number as given,
  whatever its value; the outcome of the call is what the remote side answers to that
  request.
\<close>

theorem uploadPart_headers:
  "map (\<lambda>rq. (effective_header rq ''X-Bz-Content-Sha1'', effective_header rq ''X-Bz-Part-Number''))
     (snd (uploadPart net this uploadUrl uploadAuthToken partNumber data progress))
     = [(Some (HStr (sha1 data)), Some (HNum partNumber))] \<and>
   length (sha1 data) = 40 \<and>
   map net (snd (uploadPart net this uploadUrl uploadAuthToken partNumber data progress))
     = [fst (uploadPart net this uploadUrl uploadAuthToken partNumber data progress)]"
  by (simp add: uploadPart_requests effective_header_def length_sha1)
    (simp add: uploadPart_def send_def)

text \<open>
  C5 at three payloads whose digests are known, with part numbers outside the range from 1
  to 10000.
\<close>

theorem uploadPart_headers_witness:
  "map (\<lambda>rq. (effective_header rq ''X-Bz-Content-Sha1'', effective_header rq ''X-Bz-Part-Number''))
     (snd (uploadPart (offline :: jsval transport) new_B2 (js ''https://pod.example/part'')
        (js ''ticket'') 10001 [0x61, 0x62, 0x63] None))
     = [(Some (HStr (js ''a9993e364706816aba3e25717850c26c9cd0d89d'')), Some (HNum 10001))] \<and>
   map (\<lambda>rq. (effective_header rq ''X-Bz-Content-Sha1'', effective_header rq ''X-Bz-Part-Number''))
     (snd (uploadPart (offline :: jsval transport) session_client (js ''https://pod.example/part'')
        (js ''ticket'') 0
        [0x61, 0x62, 0x63, 0x64, 0x62, 0x63, 0x64, 0x65, 0x63, 0x64, 0x65, 0x66, 0x64, 0x65,
         0x66, 0x67, 0x65, 0x66, 0x67, 0x68, 0x66, 0x67, 0x68, 0x69, 0x67, 0x68, 0x69, 0x6a,
         0x68, 0x69, 0x6a, 0x6b, 0x69, 0x6a, 0x6b, 0x6c, 0x6a, 0x6b, 0x6c, 0x6d, 0x6b, 0x6c,
         0x6d, 0x6e, 0x6c, 0x6d, 0x6e, 0x6f, 0x6d, 0x6e, 0x6f, 0x70, 0x6e, 0x6f, 0x70, 0x71]
        None))
     = [(Some (HStr (js ''84983e441c3bd26ebaae4aa1f95129e5e54670f1'')), Some (HNum 0))] \<and>
   map (\<lambda>rq. (effective_header rq ''X-Bz-Content-Sha1'', effective_header rq ''X-Bz-Part-Number''))
     (snd (uploadPart (offline :: jsval transport) new_B2 (js ''https://pod.example/part'')
        (js ''ticket'') (- 1) [] None))
     = [(Some (HStr (js ''da39a3ee5e6b4b0d3255bfef95601890afd80709'')), Some (HNum (- 1)))] \<and>
   length (js ''a9993e364706816aba3e25717850c26c9cd0d89d'') = 40"
proof -
  note a = uploadPart_headers [of "offline :: jsval transport" new_B2
      "js ''https://pod.example/part''" "js ''ticket''" 10001 "[0x61, 0x62, 0x63]" None]
  note b = uploadPart_headers [of "offline :: jsval transport" session_client
      "js ''https://pod.example/part''" "js ''ticket''" 0
      "[0x61, 0x62, 0x63, 0x64, 0x62, 0x63, 0x64, 0x65, 0x63, 0x64, 0x65, 0x66, 0x64, 0x65,
        0x66, 0x67, 0x65, 0x66, 0x67, 0x68, 0x66, 0x67, 0x68, 0x69, 0x67, 0x68, 0x69, 0x6a,
        0x68, 0x69, 0x6a, 0x6b, 0x69, 0x6a, 0x6b, 0x6c, 0x6a, 0x6b, 0x6c, 0x6d, 0x6b, 0x6c,
        0x6d, 0x6e, 0x6c, 0x6d, 0x6e, 0x6f, 0x6d, 0x6e, 0x6f, 0x70, 0x6e, 0x6f, 0x70, 0x71]" None]
  note c = uploadPart_headers [of "offline :: jsval transport" new_B2
      "js ''https://pod.example/part''" "js ''ticket''" "- 1" "[]" None]
  note a' = a [unfolded sha1_abc]
  note b' = b [unfolded sha1_two_blocks]
  note c' = c [unfolded sha1_empty]
  show ?thesis
    by (intro conjI) (rule a' [THEN conjunct1], rule b' [THEN conjunct1],
      rule c' [THEN conjunct1], rule a' [THEN conjunct2, THEN conjunct1])
qed

text \<open>
  C6. \<open>uploadFile\<close> and \<open>uploadPart\<close> do not depend on the client object: two clients,
  whatever their sessions, give the same outcome and the same request. Every request they
  issue goes through the module-level \<open>axios\<close> to the \<open>uploadUrl\<close> of the ticket, with
  the \<open>uploadAuthToken\<close> of the ticket as its \<open>Authorization\<close> header.
\<close>

theorem upload_requests_use_ticket_only:
  "uploadFile net this uploadUrl uploadAuthToken filename data mime hash progress
     = uploadFile net this' uploadUrl uploadAuthToken filename data mime hash progress \<and>
   uploadPart net this uploadUrl uploadAuthToken partNumber data progress
     = uploadPart net this' uploadUrl uploadAuthToken partNumber data progress \<and>
   (\<forall>rq\<in>set (snd (uploadFile net this uploadUrl uploadAuthToken filename data mime hash progress))
         \<union> set (snd (uploadPart net this uploadUrl uploadAuthToken partNumber data progress)).
      via rq = axios_global \<and> url rq = uploadUrl \<and>
      effective_header rq ''Authorization'' = Some (HStr uploadAuthToken)) \<and>
   length (snd (uploadPart net this uploadUrl uploadAuthToken partNumber data progress)) = 1 \<and>
   (well_formed filename \<longrightarrow>
      length (snd (uploadFile net this uploadUrl uploadAuthToken filename data mime hash progress)) = 1)"
proof (intro conjI impI)
  show "uploadFile net this uploadUrl uploadAuthToken filename data mime hash progress
     = uploadFile net this' uploadUrl uploadAuthToken filename data mime hash progress"
    by (simp add: uploadFile_def)
  show "uploadPart net this uploadUrl uploadAuthToken partNumber data progress
     = uploadPart net this' uploadUrl uploadAuthToken partNumber data progress"
    by (simp add: uploadPart_def)
  show "\<forall>rq\<in>set (snd (uploadFile net this uploadUrl uploadAuthToken filename data mime hash progress))
         \<union> set (snd (uploadPart net this uploadUrl uploadAuthToken partNumber data progress)).
      via rq = axios_global \<and> url rq = uploadUrl \<and>
      effective_header rq ''Authorization'' = Some (HStr uploadAuthToken)"
    by (auto simp: uploadFile_requests uploadPart_requests effective_header_def split: sum.splits)
  show "length (snd (uploadPart net this uploadUrl uploadAuthToken partNumber data progress)) = 1"
    by (simp add: uploadPart_requests)
next
  assume "well_formed filename"
  then show
    "length (snd (uploadFile net this uploadUrl uploadAuthToken filename data mime hash progress)) = 1"
    by (rule uploadFile_one_request)
qed

text \<open>
  C6 at a concrete upload: an authorized client and a fresh one issue the same request,
  which carries the ticket's token and nothing of the session.
\<close>

theorem upload_requests_use_ticket_only_witness:
  "well_formed (js ''a.txt'') \<and>
   uploadFile (offline :: jsval transport) session_client (js ''https://pod.example/upload'')
       (js ''ticket'') (js ''a.txt'') [] None None None
     = uploadFile offline new_B2 (js ''https://pod.example/upload'')
         (js ''ticket'') (js ''a.txt'') [] None None None \<and>
   map (\<lambda>rq. (via rq, url rq, effective_header rq ''Authorization''))
     (snd (uploadFile (offline :: jsval transport) session_client
        (js ''https://pod.example/upload'') (js ''ticket'') (js ''a.txt'') [] None None None))
     = [(axios_global, js ''https://pod.example/upload'', Some (HStr (js ''ticket'')))] \<and>
   map (\<lambda>rq. (via rq, url rq, effective_header rq ''Authorization''))
     (snd (uploadPart (offline :: jsval transport) session_client
        (js ''https://pod.example/upload'') (js ''ticket'') 1 [] None))
     = [(axios_global, js ''https://pod.example/upload'', Some (HStr (js ''ticket'')))]"
proof -
  have one: "length rqs = 1 \<Longrightarrow> \<forall>rq\<in>set rqs. f rq = v \<Longrightarrow> map f rqs = [v]"
    for rqs :: "request list"
    and f :: "request \<Rightarrow> axios_instance \<times> jsstring \<times> header_value option" and v
    by (cases rqs) auto
  show ?thesis
    using upload_requests_use_ticket_only [of "offline :: jsval transport" session_client
        "js ''https://pod.example/upload''" "js ''ticket''" "js ''a.txt''" "[]" None None None
        new_B2 1]
      a_txt_well_formed
    by (auto intro!: one)
qed

text \<open>
  C7. Every request issued by \<open>uploadFile\<close> or by \<open>uploadPart\<close> has \<open>maxRedirects\<close> 0.
\<close>

theorem upload_requests_no_redirects:
  "(\<forall>rq\<in>set (snd (uploadFile net this uploadUrl uploadAuthToken filename data mime hash progress))
         \<union> set (snd (uploadPart net' this' uploadUrl' uploadAuthToken' partNumber data' progress')).
      maxRedirects (config rq) = Some 0) \<and>
   length (snd (uploadPart net' this' uploadUrl' uploadAuthToken' partNumber data' progress')) = 1 \<and>
   (well_formed filename \<longrightarrow>
      length (snd (uploadFile net this uploadUrl uploadAuthToken filename data mime hash progress)) = 1)"
proof (intro conjI impI)
  show "\<forall>rq\<in>set (snd (uploadFile net this uploadUrl uploadAuthToken filename data mime hash progress))
         \<union> set (snd (uploadPart net' this' uploadUrl' uploadAuthToken' partNumber data' progress')).
      maxRedirects (config rq) = Some 0"
    by (auto simp: uploadFile_requests uploadPart_requests split: sum.splits)
  show "length (snd (uploadPart net' this' uploadUrl' uploadAuthToken' partNumber data' progress')) = 1"
    by (simp add: uploadPart_requests)
next
  assume "well_formed filename"
  then show
    "length (snd (uploadFile net this uploadUrl uploadAuthToken filename data mime hash progress)) = 1"
    by (rule uploadFile_one_request)
qed

text \<open>C7 at a concrete upload and a concrete part upload.\<close>

theorem upload_requests_no_redirects_witness:
  "well_formed (js ''a.txt'') \<and>
   map (\<lambda>rq. maxRedirects (config rq))
     (snd (uploadFile (offline :: jsval transport) new_B2 (js ''https://pod.example/upload'')
        (js ''ticket'') (js ''a.txt'') [] None None None)) = [Some 0] \<and>
   map (\<lambda>rq. maxRedirects (config rq))
     (snd (uploadPart (offline :: jsval transport) new_B2 (js ''https://pod.example/upload'')
        (js ''ticket'') 1 [] None)) = [Some 0]"
proof -
  have one: "length rqs = 1 \<Longrightarrow> \<forall>rq\<in>set rqs. f rq = v \<Longrightarrow> map f rqs = [v]"
    for rqs :: "request list" and f :: "request \<Rightarrow> int option" and v
    by (cases rqs) auto
  show ?thesis
    using upload_requests_no_redirects [of "offline :: jsval transport" new_B2
        "js ''https://pod.example/upload''" "js ''ticket''" "js ''a.txt''" "[]" None None None
        "offline :: jsval transport" new_B2 "js ''https://pod.example/upload''" "js ''ticket''"
        1 "[]" None]
      a_txt_well_formed
    by (auto intro!: one)
qed

section \<open>Operations through the session's transport\<close>

lemma this_axios_post_None:
  "this_axios this = None \<Longrightarrow> this_axios_post net this path data = (Inl TypeError, [])"
  by (simp add: this_axios_post_def)

lemma this_axios_get_None:
  "this_axios this = None \<Longrightarrow> this_axios_get net this path cfg = (Inl TypeError, [])"
  by (simp add: this_axios_get_def)

text \<open>
  C8. Every request that \<open>getDownloadAuthorization\<close> issues has as its body the \<open>data\<close>
  object the call was given: the property \<open>validDurationInSeconds\<close> of the body is that
  of \<open>data\<close>, whatever its value, and the outcome of the call is what the remote side
  answers to the request. On an authorized client exactly one request is issued.
\<close>

theorem getDownloadAuthorization_forwards_data:
  "(\<forall>rq\<in>set (snd (getDownloadAuthorization net this data)).
      body rq = Some data \<and>
      map_option (property ''validDurationInSeconds'') (body rq)
        = Some (property ''validDurationInSeconds'' data) \<and>
      fst (getDownloadAuthorization net this data) = net rq) \<and>
   (this_axios this \<noteq> None \<longrightarrow> length (snd (getDownloadAuthorization net this data)) = 1)"
  by (cases "this_axios this")
    (simp_all add: getDownloadAuthorization_def this_axios_post_def send_def)

text \<open>C8 at two durations outside the range from 1 to 604800.\<close>

theorem getDownloadAuthorization_forwards_data_witness:
  "this_axios session_client \<noteq> None \<and>
   map (\<lambda>rq. map_option (property ''validDurationInSeconds'') (body rq))
     (snd (getDownloadAuthorization (offline :: jsval transport) session_client
        (JObj [(''bucketId'', JStr (js ''bucket'')), (''fileNamePrefix'', JStr (js ''pets/'')),
               (''validDurationInSeconds'', JNum 604801)])))
     = [Some (JNum 604801)] \<and>
   map (\<lambda>rq. map_option (property ''validDurationInSeconds'') (body rq))
     (snd (getDownloadAuthorization (offline :: jsval transport) session_client
        (JObj [(''bucketId'', JStr (js ''bucket'')), (''fileNamePrefix'', JStr (js ''pets/'')),
               (''validDurationInSeconds'', JNum 0)])))
     = [Some (JNum 0)]"
proof -
  have a: "this_axios session_client \<noteq> None"
    by (simp add: session_client_eq)
  have one: "length rqs = 1 \<Longrightarrow> \<forall>rq\<in>set rqs. f rq = v \<Longrightarrow> map f rqs = [v]"
    for rqs :: "request list" and f :: "request \<Rightarrow> jsval option" and v
    by (cases rqs) auto
  have p: "property ''validDurationInSeconds''
      (JObj [(''bucketId'', JStr (js ''bucket'')), (''fileNamePrefix'', JStr (js ''pets/'')),
             (''validDurationInSeconds'', JNum n)]) = JNum n" for n
    by (simp add: property_def)
  show ?thesis
    using getDownloadAuthorization_forwards_data [of "offline :: jsval transport" session_client
        "JObj [(''bucketId'', JStr (js ''bucket'')), (''fileNamePrefix'', JStr (js ''pets/'')),
               (''validDurationInSeconds'', JNum 604801)]"]
      getDownloadAuthorization_forwards_data [of "offline :: jsval transport" session_client
        "JObj [(''bucketId'', JStr (js ''bucket'')), (''fileNamePrefix'', JStr (js ''pets/'')),
               (''validDurationInSeconds'', JNum 0)]"]
      a
    by (auto simp only: p intro!: one)
qed

section \<open>Operations before \<open>authorize\<close>\<close>

text \<open>
  A client is without session exactly as long as no \<open>authorize\<close> has succeeded on it:
  a new client has no transport instance, a rejected \<open>authorize\<close> leaves the client as
  it was, and a successful one sets the instance.
\<close>

lemma new_B2_unauthorized: "this_axios new_B2 = None"
  by (simp add: new_B2_def)

lemma B2_authorize_rejected:
  "fst (B2_authorize net this accountId applicationKey) = Inl e \<Longrightarrow>
     fst (snd (B2_authorize net this accountId applicationKey)) = this"
  by (auto simp: B2_authorize_def Let_def split: sum.splits)

lemma B2_authorize_session:
  "fst (B2_authorize net this accountId applicationKey) = Inr resp \<Longrightarrow>
     this_axios (fst (snd (B2_authorize net this accountId applicationKey))) \<noteq> None"
  by (auto simp: B2_authorize_def Let_def split: sum.splits)

lemmas pass_through_defs =
  createBucket_def deleteBucket_def listBuckets_def updateBucket_def getUploadUrl_def
  listFileNames_def listFileVersions_def hideFile_def getFileInfo_def deleteFileVersion_def
  getDownloadAuthorization_def downloadFileById_def startLargeFile_def getUploadPartUrl_def
  finishLargeFile_def cancelLargeFile_def

lemma downloadFileByName_unauthorized:
  assumes "this_axios this = None"
  shows "downloadFileByName net this bucketName fileName rtype progress =
           (Inl (if well_formed fileName then TypeError else URIError), [])"
  using assms getUrlEncodedFilename_cases [of fileName]
  by (auto simp: downloadFileByName_def this_axios_get_None)

lemma uploadPart_outcome:
  "\<exists>rq. uploadPart net this uploadUrl uploadAuthToken partNumber data progress = (net rq, [rq]) \<and>
         via rq = axios_global \<and> url rq = uploadUrl"
  by (simp add: uploadPart_def send_def)

lemma uploadFile_outcome:
  assumes "well_formed filename"
  shows "\<exists>rq. uploadFile net this uploadUrl uploadAuthToken filename data mime hash progress
                 = (net rq, [rq]) \<and>
              via rq = axios_global \<and> url rq = uploadUrl"
proof -
  obtain e where "getUrlEncodedFilename filename = Inr e"
    using assms getUrlEncodedFilename_Inr_iff [of filename] by blast
  then show ?thesis
    by (simp add: uploadFile_def send_def)
qed

text \<open>
  C2. On a client whose \<open>authorize\<close> has not completed, every operation other
  than \<open>authorize\<close>, \<open>uploadFile\<close> and \<open>uploadPart\<close> fails without issuing a request:
  with the \<open>TypeError\<close> of reading the uninitialised \<open>this.axios\<close>, or, for
  \<open>downloadFileByName\<close> with a file name that has an unpaired surrogate, with the
  \<open>URIError\<close> of the encoding, which runs first. On such a client \<open>uploadPart\<close> issues
  its request through the module-level \<open>axios\<close> to the \<open>uploadUrl\<close>, and so does
  \<open>uploadFile\<close> when every surrogate of the file name is paired; their outcome is what
  the remote side answers. With an unpaired surrogate in the file name \<open>uploadFile\<close>
  throws \<open>URIError\<close> and issues no request.
\<close>

theorem unauthorized_operation_fails:
  assumes "this_axios this = None"
  shows
    "(\<not> ticket_upload op \<longrightarrow>
        snd (invoke net this op) = [] \<and>
        (fst (invoke net this op) = Inl TypeError \<or>
         (\<exists>bucketName fileName rtype progress.
            op = DownloadFileByName bucketName fileName rtype progress \<and>
            \<not> well_formed fileName \<and> fst (invoke net this op) = Inl URIError))) \<and>
     (\<forall>uploadUrl uploadAuthToken partNumber data progress.
        op = UploadPart uploadUrl uploadAuthToken partNumber data progress \<longrightarrow>
        (\<exists>rq. invoke net this op = (net rq, [rq]) \<and>
              via rq = axios_global \<and> url rq = uploadUrl)) \<and>
     (\<forall>uploadUrl uploadAuthToken filename data mime hash progress.
        op = UploadFile uploadUrl uploadAuthToken filename data mime hash progress \<longrightarrow>
        (well_formed filename \<longrightarrow>
           (\<exists>rq. invoke net this op = (net rq, [rq]) \<and>
                 via rq = axios_global \<and> url rq = uploadUrl)) \<and>
        (\<not> well_formed filename \<longrightarrow> invoke net this op = (Inl URIError, [])))"
proof -
  have others: "\<not> ticket_upload op \<longrightarrow>
        snd (invoke net this op) = [] \<and>
        (fst (invoke net this op) = Inl TypeError \<or>
         (\<exists>bucketName fileName rtype progress.
            op = DownloadFileByName bucketName fileName rtype progress \<and>
            \<not> well_formed fileName \<and> fst (invoke net this op) = Inl URIError))"
  proof (cases op)
    case (DownloadFileByName bucketName fileName rtype progress)
    then show ?thesis
      by (simp add: downloadFileByName_unauthorized [OF assms])
  qed (simp_all add: pass_through_defs this_axios_post_None this_axios_get_None assms)
  have part: "\<forall>uploadUrl uploadAuthToken partNumber data progress.
        op = UploadPart uploadUrl uploadAuthToken partNumber data progress \<longrightarrow>
        (\<exists>rq. invoke net this op = (net rq, [rq]) \<and>
              via rq = axios_global \<and> url rq = uploadUrl)"
  proof (intro allI impI)
    fix uploadUrl uploadAuthToken partNumber data progress
    assume "op = UploadPart uploadUrl uploadAuthToken partNumber data progress"
    then show "\<exists>rq. invoke net this op = (net rq, [rq]) \<and>
              via rq = axios_global \<and> url rq = uploadUrl"
      using uploadPart_outcome [of net this uploadUrl uploadAuthToken partNumber data progress]
      by simp
  qed
  have upload: "\<forall>uploadUrl uploadAuthToken filename data mime hash progress.
        op = UploadFile uploadUrl uploadAuthToken filename data mime hash progress \<longrightarrow>
        (well_formed filename \<longrightarrow>
           (\<exists>rq. invoke net this op = (net rq, [rq]) \<and>
                 via rq = axios_global \<and> url rq = uploadUrl)) \<and>
        (\<not> well_formed filename \<longrightarrow> invoke net this op = (Inl URIError, []))"
  proof (intro allI impI conjI)
    fix uploadUrl uploadAuthToken filename data mime hash progress
    assume op: "op = UploadFile uploadUrl uploadAuthToken filename data mime hash progress"
    {
      assume "well_formed filename"
      then show "\<exists>rq. invoke net this op = (net rq, [rq]) \<and>
                via rq = axios_global \<and> url rq = uploadUrl"
        using op
          uploadFile_outcome [of filename net this uploadUrl uploadAuthToken data mime hash
            progress]
        by simp
    }
    {
      assume "\<not> well_formed filename"
      then show "invoke net this op = (Inl URIError, [])"
        using op by (simp add: uploadFile_no_request)
    }
  qed
  show ?thesis
    by (rule conjI [OF others conjI [OF part upload]])
qed

text \<open>C2 on a fresh client, for operations of each kind.\<close>

theorem unauthorized_operation_fails_witness:
  "this_axios new_B2 = None \<and>
   invoke (offline :: jsval transport) new_B2 (CreateBucket (js ''photos'') (js ''allPrivate''))
     = (Inl TypeError, []) \<and>
   invoke (offline :: jsval transport) new_B2
       (GetUploadUrl (JObj [(''bucketId'', JStr (js ''bucket''))]))
     = (Inl TypeError, []) \<and>
   invoke (offline :: jsval transport) new_B2 (DownloadFileByName (js ''photos'') [0xD800] None None)
     = (Inl URIError, []) \<and>
   fst (invoke (offline :: jsval transport) new_B2
          (UploadPart (js ''https://pod.example/part'') (js ''ticket'') 1 [] None))
     = Inl (AxiosError (js ''Network Error'')) \<and>
   map (\<lambda>rq. (via rq, url rq))
     (snd (invoke (offline :: jsval transport) new_B2
          (UploadPart (js ''https://pod.example/part'') (js ''ticket'') 1 [] None)))
     = [(axios_global, js ''https://pod.example/part'')] \<and>
   well_formed (js ''a.txt'') \<and>
   map (\<lambda>rq. (via rq, url rq))
     (snd (invoke (offline :: jsval transport) new_B2
          (UploadFile (js ''https://pod.example/file'') (js ''ticket'') (js ''a.txt'') [] None None
             None)))
     = [(axios_global, js ''https://pod.example/file'')] \<and>
   \<not> well_formed (js ''photos/'' @ [0xD83D]) \<and>
   invoke (offline :: jsval transport) new_B2
       (UploadFile (js ''https://pod.example/file'') (js ''ticket'') (js ''photos/'' @ [0xD83D])
          [] None None None)
     = (Inl URIError, [])"
proof -
  have a: "this_axios new_B2 = None"
    by (simp add: new_B2_def)
  have b: "\<not> well_formed [0xD800]"
    by (simp add: is_lead_def is_trail_def)
  have c: "\<not> well_formed (js ''photos/'' @ [0xD83D])"
    by (simp add: js_def is_lead_def is_trail_def)
  have t: "\<not> ticket_upload (CreateBucket (js ''photos'') (js ''allPrivate''))"
    "\<not> ticket_upload (GetUploadUrl (JObj [(''bucketId'', JStr (js ''bucket''))]))"
    "\<not> ticket_upload (DownloadFileByName (js ''photos'') [0xD800] None None)"
    by simp_all
  note w = unauthorized_operation_fails [OF a, where net = "offline :: jsval transport"]
  note others = w [THEN conjunct1, rule_format]
  note part = w [THEN conjunct2, THEN conjunct1, rule_format]
  note file_sent = w [THEN conjunct2, THEN conjunct2, rule_format, THEN conjunct1, rule_format]
  note file_thrown = w [THEN conjunct2, THEN conjunct2, rule_format, THEN conjunct2, rule_format]
  have 1: "invoke (offline :: jsval transport) new_B2
      (CreateBucket (js ''photos'') (js ''allPrivate'')) = (Inl TypeError, [])"
    using others [OF t(1)] by (auto simp: prod_eq_iff)
  have 2: "invoke (offline :: jsval transport) new_B2
      (GetUploadUrl (JObj [(''bucketId'', JStr (js ''bucket''))])) = (Inl TypeError, [])"
    using others [OF t(2)] by (auto simp: prod_eq_iff)
  have 3: "invoke (offline :: jsval transport) new_B2
      (DownloadFileByName (js ''photos'') [0xD800] None None) = (Inl URIError, [])"
    using others [OF t(3)] b by (auto simp: prod_eq_iff downloadFileByName_unauthorized [OF a])
  obtain rq where 4: "invoke (offline :: jsval transport) new_B2
      (UploadPart (js ''https://pod.example/part'') (js ''ticket'') 1 [] None)
        = (offline rq, [rq])" "via rq = axios_global" "url rq = js ''https://pod.example/part''"
    using part [OF refl] by blast
  obtain rq' where 5: "invoke (offline :: jsval transport) new_B2
      (UploadFile (js ''https://pod.example/file'') (js ''ticket'') (js ''a.txt'') [] None None
         None) = (offline rq', [rq'])" "via rq' = axios_global"
      "url rq' = js ''https://pod.example/file''"
    using file_sent [OF refl a_txt_well_formed] by blast
  have 6: "invoke (offline :: jsval transport) new_B2
       (UploadFile (js ''https://pod.example/file'') (js ''ticket'') (js ''photos/'' @ [0xD83D])
          [] None None None) = (Inl URIError, [])"
    using c by (rule file_thrown [OF refl])
  show ?thesis
    unfolding 1 2 3 4 5 6 using a c a_txt_well_formed 4(2,3) 5(2,3) by (simp add: offline_def)
qed

text \<open>
  C2 does not extend to \<open>uploadFile\<close>: on a fresh client it issues its request, and what
  fails is the transport.
\<close>

theorem uploadFile_before_authorize:
  "fst (invoke (offline :: jsval transport) new_B2
          (UploadFile (js ''https://pod.example/upload'') (js ''ticket'') (js ''a.txt'') [] None None
             None))
     = Inl (AxiosError (js ''Network Error'')) \<and>
   map url (snd (invoke (offline :: jsval transport) new_B2
          (UploadFile (js ''https://pod.example/upload'') (js ''ticket'') (js ''a.txt'') [] None None
             None)))
     = [js ''https://pod.example/upload'']"
  by (simp add: uploadFile_def getUrlEncodedFilename_a_txt send_def offline_def)

section \<open>The facade's \<open>authorize\<close>\<close>

lemma B2_authorize_success:
  assumes "fst (B2_authorize net this accountId applicationKey) = Inr resp"
  shows "\<exists>rq. B2_authorize net this accountId applicationKey =
           (Inr resp,
            this\<lparr>this_accountId := Some accountId,
                 this_axios :=
                   Some (axios_create (apiUrl resp @ API_VERSION_URL)
                     [(''Authorization'', HStr (authorizationToken resp))]),
                 this_downloadUrl := Some (downloadUrl resp)\<rparr>,
            [rq])"
  using assms by (auto simp: B2_authorize_def Let_def split: sum.splits)

lemma B2_authorize_answering:
  "fst (B2_authorize (answering resp) this accountId applicationKey) = Inr resp"
  by (simp add: B2_authorize_def answering_def Let_def)

text \<open>
  C1. When the \<open>authorize\<close> of the client succeeds with a response, the
  facade's \<open>authorize\<close> returns that response if the allowed bucket id of the response is
  a non-empty string equal to the given \<open>bucketId\<close>, and throws an \<open>Error\<close> otherwise:
  when the allowed bucket id is \<open>undefined\<close>, \<open>null\<close>, the empty string, or differs.
\<close>

theorem B2Bucket_authorize_checks_bucket:
  assumes "fst (B2_authorize net new_B2 accountId applicationKey) = Inr resp"
  shows "fst (B2Bucket_authorize net this accountId applicationKey bucketId) =
     (if allowed_bucketId (allowed resp) = Defined bucketId \<and> bucketId \<noteq> []
      then Inr resp
      else Inl (Error
             (js ''Allowed bucket does not match provided bucket id! Bucket id returned: ''
                @ template_text (allowed_bucketId (allowed resp)))))"
proof -
  obtain rq where "B2_authorize net new_B2 accountId applicationKey =
      (Inr resp,
       new_B2\<lparr>this_accountId := Some accountId,
               this_axios :=
                 Some (axios_create (apiUrl resp @ API_VERSION_URL)
                   [(''Authorization'', HStr (authorizationToken resp))]),
               this_downloadUrl := Some (downloadUrl resp)\<rparr>,
       [rq])"
    using B2_authorize_success [OF assms] by blast
  then show ?thesis
    by (auto simp: B2Bucket_authorize_def Let_def falsy_def split: nullable.splits)
qed

text \<open>C1 for a matching, a different and an absent allowed bucket id.\<close>

theorem B2Bucket_authorize_checks_bucket_witness:
  "fst (B2_authorize (answering example_response) new_B2 (js ''account'') (js ''key''))
     = Inr example_response \<and>
   fst (B2Bucket_authorize (answering example_response)
          \<lparr>this_bucketId = None, this_b2 = None\<rparr> (js ''account'') (js ''key'') (js ''bucket''))
     = Inr example_response \<and>
   fst (B2Bucket_authorize (answering example_response)
          \<lparr>this_bucketId = None, this_b2 = None\<rparr> (js ''account'') (js ''key'') (js ''other''))
     = Inl (Error
         (js ''Allowed bucket does not match provided bucket id! Bucket id returned: ''
            @ js ''bucket'')) \<and>
   fst (B2Bucket_authorize
          (answering (example_response\<lparr>allowed := \<lparr>allowed_bucketId = Undefined\<rparr>\<rparr>))
          \<lparr>this_bucketId = None, this_b2 = None\<rparr> (js ''account'') (js ''key'') (js ''bucket''))
     = Inl (Error
         (js ''Allowed bucket does not match provided bucket id! Bucket id returned: ''
            @ js ''undefined''))"
proof -
  have b: "js ''bucket'' \<noteq> []" "js ''other'' \<noteq> js ''bucket''"
    by (simp_all add: js_def)
  show ?thesis
    using B2Bucket_authorize_checks_bucket [where net = "answering example_response"
        and resp = example_response and accountId = "js ''account''"
        and applicationKey = "js ''key''" and this = "\<lparr>this_bucketId = None, this_b2 = None\<rparr>"
        and bucketId = "js ''bucket''"]
      B2Bucket_authorize_checks_bucket [where net = "answering example_response"
        and resp = example_response and accountId = "js ''account''"
        and applicationKey = "js ''key''" and this = "\<lparr>this_bucketId = None, this_b2 = None\<rparr>"
        and bucketId = "js ''other''"]
      B2Bucket_authorize_checks_bucket [where
        net = "answering (example_response\<lparr>allowed := \<lparr>allowed_bucketId = Undefined\<rparr>\<rparr>)"
        and resp = "example_response\<lparr>allowed := \<lparr>allowed_bucketId = Undefined\<rparr>\<rparr>"
        and accountId = "js ''account''"
        and applicationKey = "js ''key''" and this = "\<lparr>this_bucketId = None, this_b2 = None\<rparr>"
        and bucketId = "js ''bucket''"]
      b
    by (simp add: B2_authorize_answering) (simp add: example_response_def template_text_def)
qed

text \<open>
  C1 does not extend to the empty bucket id: when the allowed bucket id and the given one are
  both the empty string they are equal, and the call throws.
\<close>

theorem B2Bucket_authorize_rejects_empty_bucket_id:
  "fst (B2Bucket_authorize
          (answering (example_response\<lparr>allowed := \<lparr>allowed_bucketId = Defined []\<rparr>\<rparr>))
          \<lparr>this_bucketId = None, this_b2 = None\<rparr> (js ''account'') (js ''key'') [])
     = Inl (Error (js ''Allowed bucket does not match provided bucket id! Bucket id returned: ''))"
  by (simp add: B2Bucket_authorize_def B2_authorize_def answering_def Let_def falsy_def
        template_text_def example_response_def)

text \<open>
  C9. When the facade's \<open>authorize\<close> throws because the allowed bucket id is absent or does
  not match, the facade already holds the given \<open>bucketId\<close> and a client that carries the
  new session: the transport instance made from the response, the account id and the
  download URL.
\<close>

theorem B2Bucket_authorize_not_atomic:
  assumes "fst (B2_authorize net new_B2 accountId applicationKey) = Inr resp"
    and "falsy (allowed_bucketId (allowed resp)) \<or> allowed_bucketId (allowed resp) \<noteq> Defined bucketId"
  shows "fst (B2Bucket_authorize net this accountId applicationKey bucketId) =
           Inl (Error
             (js ''Allowed bucket does not match provided bucket id! Bucket id returned: ''
                @ template_text (allowed_bucketId (allowed resp)))) \<and>
         fst (snd (B2Bucket_authorize net this accountId applicationKey bucketId)) =
           \<lparr>this_bucketId = Some bucketId,
            this_b2 =
              Some \<lparr>this_axios =
                      Some (axios_create (apiUrl resp @ API_VERSION_URL)
                        [(''Authorization'', HStr (authorizationToken resp))]),
                    this_accountId = Some accountId,
                    this_downloadUrl = Some (downloadUrl resp)\<rparr>\<rparr>"
proof -
  obtain rq where "B2_authorize net new_B2 accountId applicationKey =
      (Inr resp,
       new_B2\<lparr>this_accountId := Some accountId,
               this_axios :=
                 Some (axios_create (apiUrl resp @ API_VERSION_URL)
                   [(''Authorization'', HStr (authorizationToken resp))]),
               this_downloadUrl := Some (downloadUrl resp)\<rparr>,
       [rq])"
    using B2_authorize_success [OF assms(1)] by blast
  then show ?thesis
    using assms(2) by (auto simp: B2Bucket_authorize_def Let_def new_B2_def)
qed

text \<open>C9 for a bucket id that differs from the allowed one.\<close>

theorem B2Bucket_authorize_not_atomic_witness:
  "fst (B2_authorize (answering example_response) new_B2 (js ''account'') (js ''key''))
     = Inr example_response \<and>
   allowed_bucketId (allowed example_response) \<noteq> Defined (js ''other'') \<and>
   fst (B2Bucket_authorize (answering example_response)
          \<lparr>this_bucketId = None, this_b2 = None\<rparr> (js ''account'') (js ''key'') (js ''other''))
     = Inl (Error
         (js ''Allowed bucket does not match provided bucket id! Bucket id returned: ''
            @ js ''bucket'')) \<and>
   fst (snd (B2Bucket_authorize (answering example_response)
          \<lparr>this_bucketId = None, this_b2 = None\<rparr> (js ''account'') (js ''key'') (js ''other'')))
     = \<lparr>this_bucketId = Some (js ''other''), this_b2 = Some session_client\<rparr>"
proof -
  have b: "allowed_bucketId (allowed example_response) \<noteq> Defined (js ''other'')"
    by (simp add: example_response_def js_def)
  then have c: "falsy (allowed_bucketId (allowed example_response)) \<or>
      allowed_bucketId (allowed example_response) \<noteq> Defined (js ''other'')"
    by simp
  show ?thesis
    using B2Bucket_authorize_not_atomic [where net = "answering example_response"
        and resp = example_response and accountId = "js ''account''"
        and applicationKey = "js ''key''" and this = "\<lparr>this_bucketId = None, this_b2 = None\<rparr>"
        and bucketId = "js ''other''"]
      b c
    by (simp add: B2_authorize_answering session_client_eq)
      (simp add: example_response_def template_text_def)
qed

end
